theory Spec2Isabelle
  imports Main "HOL-Library.List_Lexorder"
begin

section \<open>Python strings\<close>

text \<open>
  A Python \<^verbatim>\<open>str\<close> is a sequence of Unicode code points, so it is modelled as a list of
  natural numbers, one per code point. The non-ASCII literals of
  \<^verbatim>\<open>compare_source_files_streamlit.py\<close> are written out as their code points.
\<close>

type_synonym pystr = "nat list"

definition of_ascii :: "string \<Rightarrow> pystr" where
  "of_ascii s = map of_char s"

definition PIPE :: nat where
  "PIPE = 124"

definition NEWLINE :: nat where
  "NEWLINE = 10"

definition DASHES :: pystr where
  "DASHES = [45, 45, 45]"

text \<open>
  \<^verbatim>\<open>str.isspace\<close> for one code point: the code points CPython 3 treats as whitespace,
  which are the ones \<^verbatim>\<open>str.strip()\<close> removes.
\<close>

definition is_space :: "nat \<Rightarrow> bool" where
  "is_space c \<longleftrightarrow>
     (9 \<le> c \<and> c \<le> 13) \<or> (28 \<le> c \<and> c \<le> 32) \<or> c = 0x85 \<or> c = 0xA0 \<or> c = 0x1680 \<or>
     (0x2000 \<le> c \<and> c \<le> 0x200A) \<or> c = 0x2028 \<or> c = 0x2029 \<or> c = 0x202F \<or>
     c = 0x205F \<or> c = 0x3000"

text \<open>\<^verbatim>\<open>s.strip()\<close> and \<^verbatim>\<open>s.strip(chars)\<close>.\<close>

definition strip_where :: "(nat \<Rightarrow> bool) \<Rightarrow> pystr \<Rightarrow> pystr" where
  "strip_where P s = dropWhile P (rev (dropWhile P (rev s)))"

definition strip :: "pystr \<Rightarrow> pystr" where
  "strip s = strip_where is_space s"

definition strip_chars :: "pystr \<Rightarrow> pystr \<Rightarrow> pystr" where
  "strip_chars chars s = strip_where (\<lambda>c. c \<in> set chars) s"

text \<open>
  \<^verbatim>\<open>s.split(sep)\<close> for a separator of one code point: the result is never empty, and
  empty fields are kept.
\<close>

fun split_on :: "nat \<Rightarrow> pystr \<Rightarrow> pystr list" where
  "split_on sep [] = [[]]"
| "split_on sep (c # cs) =
     (if c = sep then [] # split_on sep cs
      else (case split_on sep cs of
              [] \<Rightarrow> [[c]]
            | w # ws \<Rightarrow> (c # w) # ws))"

text \<open>\<^verbatim>\<open>s.startswith(p)\<close> and the substring test \<^verbatim>\<open>p in s\<close>.\<close>

definition startswith :: "pystr \<Rightarrow> pystr \<Rightarrow> bool" where
  "startswith s p \<longleftrightarrow> take (length p) s = p"

fun contains :: "pystr \<Rightarrow> pystr \<Rightarrow> bool" where
  "contains [] p = (p = [])"
| "contains (c # cs) p = (startswith (c # cs) p \<or> contains cs p)"

section \<open>Tables\<close>

text \<open>
  The \<^verbatim>\<open>pandas.DataFrame\<close> values that the program builds from the model's reply hold
  strings only: an ordered list of column labels and an ordered list of rows. The
  operations below are the pandas calls the program makes on them, with the default
  \<^verbatim>\<open>RangeIndex\<close> row labels.
\<close>

record dataframe =
  df_columns :: "pystr list"
  df_rows :: "pystr list list"

text \<open>\<^verbatim>\<open>pd.DataFrame(data_rows, columns=header)\<close> and \<^verbatim>\<open>pd.DataFrame(columns=header)\<close>.\<close>

definition DataFrame :: "pystr list list \<Rightarrow> pystr list \<Rightarrow> dataframe" where
  "DataFrame data_rows header = \<lparr>df_columns = header, df_rows = data_rows\<rparr>"

text \<open>\<^verbatim>\<open>df.empty\<close>: one of the two axes has length 0.\<close>

definition df_empty :: "dataframe \<Rightarrow> bool" where
  "df_empty df \<longleftrightarrow> df_rows df = [] \<or> df_columns df = []"

text \<open>
  \<^verbatim>\<open>df.loc[0] = vals\<close>: the row labelled 0 is overwritten when it exists and appended
  when the frame has no row.
\<close>

definition loc0_set :: "dataframe \<Rightarrow> pystr list \<Rightarrow> dataframe" where
  "loc0_set df vals =
     (case df_rows df of
        [] \<Rightarrow> df\<lparr>df_rows := [vals]\<rparr>
      | r # rs \<Rightarrow> df\<lparr>df_rows := vals # rs\<rparr>)"

text \<open>
  \<^verbatim>\<open>df[col] = v\<close> for a scalar \<^verbatim>\<open>v\<close>: an existing column of that label is overwritten
  in every row, otherwise a new column is appended on the right.
\<close>

definition set_column :: "dataframe \<Rightarrow> pystr \<Rightarrow> pystr \<Rightarrow> dataframe" where
  "set_column df col v =
     (if col \<in> set (df_columns df)
      then df\<lparr>df_rows :=
                map (\<lambda>r. map (\<lambda>(h, x). if h = col then v else x) (zip (df_columns df) r))
                  (df_rows df)\<rparr>
      else \<lparr>df_columns = df_columns df @ [col],
            df_rows = map (\<lambda>r. r @ [v]) (df_rows df)\<rparr>)"

section \<open>Parsing the model's reply\<close>

text \<open>The literals of lines 282 to 298 of \<^verbatim>\<open>perform_comparison\<close>.\<close>

definition COL_DIFF_NOTE :: pystr where
  \<comment> \<open>the column label of line 296 ("difference note")\<close>
  "COL_DIFF_NOTE = [0x5DEE, 0x5F02, 0x8BF4, 0x660E]"

definition NO_DIFF :: pystr where
  \<comment> \<open>the cell text of line 295 ("no difference")\<close>
  "NO_DIFF = [0x65E0, 0x5DEE, 0x5F02]"

definition NO_DIFF_NOTE :: pystr where
  \<comment> \<open>the text of line 296 ("Kimi reports no significant difference in this sheet.")\<close>
  "NO_DIFF_NOTE = [75, 105, 109, 105, 0x62A5, 0x544A, 0x5728, 0x6B64, 0x5DE5, 0x4F5C, 0x8868,
     0x4E2D, 0x672A, 0x53D1, 0x73B0, 0x663E, 0x8457, 0x5DEE, 0x5F02, 0x3002]"

definition COL_NOTE :: pystr where
  \<comment> \<open>the first column label of line 298 ("note")\<close>
  "COL_NOTE = [0x8BF4, 0x660E]"

definition COL_RAW_OUTPUT :: pystr where
  \<comment> \<open>the second column label of line 298 ("raw output")\<close>
  "COL_RAW_OUTPUT = [0x539F, 0x59CB, 0x8F93, 0x51FA]"

definition bad_format_note :: "pystr \<Rightarrow> pystr" where
  \<comment> \<open>the f-string of line 298 ("Kimi found no difference in sheet '...' or the format
      of the reply is wrong.")\<close>
  "bad_format_note sheet_name =
     [75, 105, 109, 105, 0x62A5, 0x544A, 0x5728, 0x5DE5, 0x4F5C, 0x8868, 32, 39] @ sheet_name @
     [39, 32, 0x4E2D, 0x672A, 0x53D1, 0x73B0, 0x5DEE, 0x5F02, 0x6216, 0x8FD4, 0x56DE, 0x683C,
      0x5F0F, 0x4E0D, 0x6B63, 0x786E, 0x3002]"

text \<open>
  The list comprehension of lines 284, 287 and 292:
  \<^verbatim>\<open>[h.strip() for h in line.strip().strip('|').split('|')]\<close>.
\<close>

definition split_cells :: "pystr \<Rightarrow> pystr list" where
  "split_cells line = map strip (split_on PIPE (strip_chars [PIPE] (strip line)))"

text \<open>
  The loop of lines 286 to 289 over \<^verbatim>\<open>lines[2:]\<close>, with \<^verbatim>\<open>data_rows\<close> as the
  accumulator that \<^verbatim>\<open>append\<close> extends.
\<close>

fun collect_data_rows :: "pystr list \<Rightarrow> pystr list \<Rightarrow> pystr list list \<Rightarrow> pystr list list" where
  "collect_data_rows header [] data_rows = data_rows"
| "collect_data_rows header (line # rest) data_rows =
     (let parts = split_cells line
      in if length parts = length header
         then collect_data_rows header rest (data_rows @ [parts])
         else collect_data_rows header rest data_rows)"

text \<open>The frame of the last branch (line 298): one row with a note and the trimmed reply.\<close>

definition unparsed_frame :: "pystr \<Rightarrow> pystr \<Rightarrow> dataframe" where
  "unparsed_frame sheet_name table_str =
     \<lparr>df_columns = [COL_NOTE, COL_RAW_OUTPUT],
      df_rows = [[bad_format_note sheet_name, table_str]]\<rparr>"

text \<open>The frame of the middle branch (lines 292 to 296), from the header.\<close>

definition header_only_frame :: "pystr list \<Rightarrow> dataframe" where
  "header_only_frame header =
     (let details_df = DataFrame [] header
      in if df_empty details_df
         then set_column (loc0_set details_df (replicate (length header) NO_DIFF))
                COL_DIFF_NOTE NO_DIFF_NOTE
         else details_df)"

text \<open>
  Lines 279 to 298: the value of \<^verbatim>\<open>details_df\<close> for a reply \<^verbatim>\<open>comparison_result\<close>.
  \<^verbatim>\<open>lines[0]\<close> is always in range, since \<^verbatim>\<open>split\<close> returns at least one field, and
  \<^verbatim>\<open>lines[1]\<close> is read only after the length test.
\<close>

definition parse_comparison_result :: "pystr \<Rightarrow> pystr \<Rightarrow> dataframe" where
  "parse_comparison_result sheet_name comparison_result =
     (let table_str = strip comparison_result;
          lines = split_on NEWLINE (strip table_str)
      in if length lines > 1 \<and> PIPE \<in> set (lines ! 0) \<and> contains (lines ! 1) DASHES
         then (let header = split_cells (lines ! 0);
                   data_rows = collect_data_rows header (drop 2 lines) []
               in DataFrame data_rows header)
         else if PIPE \<in> set (lines ! 0)
         then header_only_frame (split_cells (lines ! 0))
         else unparsed_frame sheet_name table_str)"

section \<open>Paths and pairs\<close>

text \<open>
  \<^verbatim>\<open>os.path.join\<close> and \<^verbatim>\<open>os.path.basename\<close> for two components, with \<^verbatim>\<open>/\<close> as the
  separator.
\<close>

definition SLASH :: nat where
  "SLASH = 47"

definition path_join :: "pystr \<Rightarrow> pystr \<Rightarrow> pystr" where
  "path_join a b =
     (if startswith b [SLASH] then b
      else if a = [] \<or> last a = SLASH then a @ b
      else a @ SLASH # b)"

definition basename :: "pystr \<Rightarrow> pystr" where
  "basename p = rev (takeWhile (\<lambda>c. c \<noteq> SLASH) (rev p))"

text \<open>
  \<^verbatim>\<open>list(itertools.combinations(xs, 2))\<close>: the pairs of positions \<^verbatim>\<open>i < j\<close> in
  lexicographic order of \<^verbatim>\<open>(i, j)\<close>.
\<close>

fun combinations2 :: "'a list \<Rightarrow> ('a \<times> 'a) list" where
  "combinations2 [] = []"
| "combinations2 (x # xs) = map (Pair x) xs @ combinations2 xs"

text \<open>\<^verbatim>\<open>sep.join(xs)\<close>.\<close>

fun join :: "pystr \<Rightarrow> pystr list \<Rightarrow> pystr" where
  "join sep [] = []"
| "join sep [x] = x"
| "join sep (x # y # ys) = x @ sep @ join sep (y # ys)"

text \<open>
  \<^verbatim>\<open>sorted(list(set(xs) & set(ys)))\<close> and \<^verbatim>\<open>sorted(list(set(xs) - set(ys)))\<close>; Python
  orders strings by code points, lexicographically.
\<close>

definition sorted_common :: "pystr list \<Rightarrow> pystr list \<Rightarrow> pystr list" where
  "sorted_common xs ys = sort (remdups (filter (\<lambda>s. s \<in> set ys) xs))"

definition sorted_minus :: "pystr list \<Rightarrow> pystr list \<Rightarrow> pystr list" where
  "sorted_minus xs ys = sort (remdups (filter (\<lambda>s. s \<notin> set ys) xs))"

section \<open>The collaborators\<close>

text \<open>
  A Python exception is the value that \<^verbatim>\<open>str(e)\<close> shows. A call that may raise returns
  a sum (\<open>Inl\<close> the exception) or, when it returns nothing, an optional exception.
\<close>

datatype exn = Exn pystr

fun str_of :: "exn \<Rightarrow> pystr" where
  "str_of (Exn msg) = msg"

text \<open>
  The request of one attempt: the prompt of \<^verbatim>\<open>get_comparison_from_kimi\<close> is a fixed
  text around these five arguments, so the request is identified by them.
\<close>

record prompt =
  p_file1_content :: pystr
  p_file2_content :: pystr
  p_file1_name :: pystr
  p_file2_name :: pystr
  p_sheet_name :: pystr

text \<open>
  What the program reads of a response: \<^verbatim>\<open>response.status_code\<close> and
  \<^verbatim>\<open>response.output.choices[0].message.content\<close>, whose access may raise.
\<close>

record response =
  status_code :: nat
  message_content :: "exn + pystr"

definition HTTP_OK :: nat where
  "HTTP_OK = 200"

text \<open>The observable steps of the client, in the order they happen.\<close>

datatype event = Call prompt pystr | Sleep nat

fun is_call :: "event \<Rightarrow> bool" where
  "is_call (Call p k) = True"
| "is_call (Sleep d) = False"

fun is_sleep :: "event \<Rightarrow> bool" where
  "is_sleep (Call p k) = False"
| "is_sleep (Sleep d) = True"

text \<open>
  An \<^verbatim>\<open>ExcelFile\<close> handle: its sheet names and \<^verbatim>\<open>parse\<close>, which gives the frame of a
  sheet. The frames read from the input are values of a type \<open>'c\<close> of their own.
\<close>

record 'c workbook =
  sheet_names :: "pystr list"
  parse_sheet :: "pystr \<Rightarrow> exn + 'c"

type_synonym sheet = "pystr \<times> dataframe"

text \<open>
  Everything outside the program: the file system, pandas' readers and writers, the
  clock, and the model's endpoint. \<open>Generation_call n\<close> is the outcome of the attempt
  made after \<open>n\<close> earlier ones. \<open>to_excel path sheets sh\<close> writes sheet \<open>sh\<close> through
  the writer on \<open>path\<close> that holds \<open>sheets\<close> already; \<open>set_column_widths\<close> stands for
  lines 303 to 307.
\<close>

record 'c env =
  isdir :: "pystr \<Rightarrow> bool"
  glob :: "pystr \<Rightarrow> pystr list"
  strftime_now :: pystr
  ExcelFile :: "pystr \<Rightarrow> exn + 'c workbook"
  df_equals :: "'c \<Rightarrow> 'c \<Rightarrow> bool"
  to_json :: "'c \<Rightarrow> exn + pystr"
  Generation_call :: "nat \<Rightarrow> prompt \<Rightarrow> pystr \<Rightarrow> exn + response"
  ExcelWriter :: "pystr \<Rightarrow> exn option"
  to_excel :: "pystr \<Rightarrow> sheet list \<Rightarrow> sheet \<Rightarrow> exn option"
  set_column_widths :: "pystr \<Rightarrow> sheet \<Rightarrow> exn option"
  writer_close :: "pystr \<Rightarrow> sheet list \<Rightarrow> exn option"

section \<open>The client of the model\<close>

text \<open>
  \<^verbatim>\<open>get_comparison_from_kimi\<close>, lines 76 to 103. The loop
  \<^verbatim>\<open>for attempt in range(retries)\<close> is a recursion over the attempts left; the
  result is the returned text (\<open>None\<close> for Python's \<^verbatim>\<open>None\<close>) and the extended
  trace. \<^verbatim>\<open>retries - 1\<close> is read only when \<^verbatim>\<open>attempt < retries\<close>, so the subtraction
  never truncates. Logging has no effect on the result and is left out.
\<close>

fun kimi_attempts ::
  "(nat \<Rightarrow> prompt \<Rightarrow> pystr \<Rightarrow> exn + response) \<Rightarrow> prompt \<Rightarrow> pystr \<Rightarrow> nat \<Rightarrow> nat \<Rightarrow>
   nat list \<Rightarrow> event list \<Rightarrow> pystr option \<times> event list" where
  "kimi_attempts call p api_key retries delay [] tr = (None, tr)"
| "kimi_attempts call p api_key retries delay (attempt # rest) tr =
     (let r = call (length (filter is_call tr)) p api_key;
          tr1 = tr @ [Call p api_key];
          tr2 = (if attempt < retries - 1 then tr1 @ [Sleep delay] else tr1)
      in case r of
           Inl e \<Rightarrow> kimi_attempts call p api_key retries delay rest tr2
         | Inr response \<Rightarrow>
             if status_code response = HTTP_OK
             then (case message_content response of
                     Inl e \<Rightarrow> kimi_attempts call p api_key retries delay rest tr2
                   | Inr content \<Rightarrow> (Some content, tr1))
             else kimi_attempts call p api_key retries delay rest tr2)"

definition get_comparison_from_kimi ::
  "(nat \<Rightarrow> prompt \<Rightarrow> pystr \<Rightarrow> exn + response) \<Rightarrow> pystr \<Rightarrow> pystr \<Rightarrow> pystr \<Rightarrow> pystr \<Rightarrow> pystr \<Rightarrow>
   pystr \<Rightarrow> nat \<Rightarrow> nat \<Rightarrow> event list \<Rightarrow> pystr option \<times> event list" where
  "get_comparison_from_kimi call file1_content file2_content file1_name file2_name sheet_name
     api_key retries delay tr =
     kimi_attempts call
       \<lparr>p_file1_content = file1_content, p_file2_content = file2_content,
        p_file1_name = file1_name, p_file2_name = file2_name, p_sheet_name = sheet_name\<rparr>
       api_key retries delay [0..<retries] tr"

text \<open>The defaults \<^verbatim>\<open>retries=3, delay=5\<close> of line 21, which the only caller uses.\<close>

definition RETRIES :: nat where
  "RETRIES = 3"

definition DELAY :: nat where
  "DELAY = 5"

text \<open>An attempt fails when the call raises, the status is not OK, or the content cannot be read.\<close>

definition attempt_fails :: "exn + response \<Rightarrow> bool" where
  "attempt_fails r =
     (case r of
        Inl e \<Rightarrow> True
      | Inr response \<Rightarrow> status_code response \<noteq> HTTP_OK \<or> isl (message_content response))"

section \<open>The report of one pair\<close>

text \<open>The literals of lines 225 to 326 and 330, as code points.\<close>

definition COL_FILE1 :: pystr where
  \<comment> \<open>"file 1"\<close>
  "COL_FILE1 = [0x6587, 0x4EF6, 49]"

definition COL_FILE2 :: pystr where
  \<comment> \<open>"file 2"\<close>
  "COL_FILE2 = [0x6587, 0x4EF6, 50]"

definition COL_STATUS :: pystr where
  \<comment> \<open>"status"\<close>
  "COL_STATUS = [0x72B6, 0x6001]"

definition ST_READ_ERROR :: pystr where
  \<comment> \<open>line 225, "read error"\<close>
  "ST_READ_ERROR = [0x8BFB, 0x53D6, 0x9519, 0x8BEF]"

definition ST_NO_COMMON_SHEETS :: pystr where
  \<comment> \<open>line 232, "no common sheet"\<close>
  "ST_NO_COMMON_SHEETS = [0x65E0, 0x5171, 0x540C, 0x5DE5, 0x4F5C, 0x8868]"

definition ST_COMPLETED :: pystr where
  \<comment> \<open>line 321, "completed"\<close>
  "ST_COMPLETED = [0x5DF2, 0x5B8C, 0x6210]"

definition ST_PROCESSING_ERROR :: pystr where
  \<comment> \<open>line 326, "processing error"\<close>
  "ST_PROCESSING_ERROR = [0x5904, 0x7406, 0x9519, 0x8BEF]"

definition NOTE_NO_COMMON_SHEETS :: pystr where
  \<comment> \<open>line 232, "The two files have no common sheet to compare."\<close>
  "NOTE_NO_COMMON_SHEETS = [0x4E24, 0x4E2A, 0x6587, 0x4EF6, 0x6CA1, 0x6709, 0x5171, 0x540C,
     0x7684, 0x5DE5, 0x4F5C, 0x8868, 0x53EF, 0x4F9B, 0x6BD4, 0x8F83, 0x3002]"

definition saved_note :: "pystr \<Rightarrow> pystr" where
  \<comment> \<open>line 321, "The result of the comparison was saved to: ..."\<close>
  "saved_note name =
     [0x6BD4, 0x8F83, 0x7ED3, 0x679C, 0x5DF2, 0x4FDD, 0x5B58, 0x81F3, 58, 32] @ name"

definition LABEL_COMMON :: pystr where
  \<comment> \<open>line 247, "sheets in both"\<close>
  "LABEL_COMMON = [0x5171, 0x6709, 0x5DE5, 0x4F5C, 0x8868]"

definition LABEL_ONLY1 :: pystr where
  \<comment> \<open>line 247, "only in file 1"\<close>
  "LABEL_ONLY1 = [0x4EC5, 0x5728, 0x6587, 0x4EF6, 49, 0x4E2D]"

definition LABEL_ONLY2 :: pystr where
  \<comment> \<open>line 247, "only in file 2"\<close>
  "LABEL_ONLY2 = [0x4EC5, 0x5728, 0x6587, 0x4EF6, 50, 0x4E2D]"

definition COL_SHEET_NAMES :: pystr where
  \<comment> \<open>line 248, "sheet names"\<close>
  "COL_SHEET_NAMES = [0x5DE5, 0x4F5C, 0x8868, 0x540D, 0x79F0]"

definition SHEET_PAIR_OVERVIEW :: pystr where
  \<comment> \<open>line 251, "overview"\<close>
  "SHEET_PAIR_OVERVIEW = [0x6982, 0x89C8]"

definition SHEET_RUN_OVERVIEW :: pystr where
  \<comment> \<open>line 330, "general overview"\<close>
  "SHEET_RUN_OVERVIEW = [0x603B, 0x89C8]"

definition COL_SUMMARY :: pystr where
  \<comment> \<open>line 265, "summary"\<close>
  "COL_SUMMARY = [0x603B, 0x7ED3]"

definition SAME :: pystr where
  \<comment> \<open>line 263, "identical"\<close>
  "SAME = [0x76F8, 0x540C]"

definition same_text :: "pystr \<Rightarrow> pystr" where
  \<comment> \<open>line 262, "The content of sheet '...' is exactly the same in the two files."\<close>
  "same_text sheet_name =
     [0x5DE5, 0x4F5C, 0x8868, 32, 39] @ sheet_name @
     [39, 32, 0x5728, 0x4E24, 0x4E2A, 0x6587, 0x4EF6, 0x4E2D, 0x7684, 0x5185, 0x5BB9, 0x5B8C,
      0x5168, 0x76F8, 0x540C, 0x3002]"

definition SUFFIX_SUMMARY :: pystr where
  \<comment> \<open>line 266\<close>
  "SUFFIX_SUMMARY = [95, 0x603B, 0x7ED3]"

definition SUFFIX_DIFF :: pystr where
  \<comment> \<open>line 267\<close>
  "SUFFIX_DIFF = [95, 0x5DEE, 0x5F02]"

definition SUFFIX_DIFF_TABLE :: pystr where
  \<comment> \<open>line 300\<close>
  "SUFFIX_DIFF_TABLE = [95, 0x5DEE, 0x5F02, 0x5BF9, 0x6BD4]"

definition SUFFIX_RAW_RETURN :: pystr where
  \<comment> \<open>line 314\<close>
  "SUFFIX_RAW_RETURN = [95, 0x539F, 0x59CB, 0x8FD4, 0x56DE]"

definition SUFFIX_ERROR :: pystr where
  \<comment> \<open>line 318\<close>
  "SUFFIX_ERROR = [95, 0x9519, 0x8BEF]"

definition COL_RAW_RETURN :: pystr where
  \<comment> \<open>line 313, "raw returned content"\<close>
  "COL_RAW_RETURN = [0x539F, 0x59CB, 0x8FD4, 0x56DE, 0x5185, 0x5BB9]"

definition COL_ERROR :: pystr where
  \<comment> \<open>line 317, "error"\<close>
  "COL_ERROR = [0x9519, 0x8BEF]"

definition no_result_text :: "pystr \<Rightarrow> pystr" where
  \<comment> \<open>line 317, "Could not get the comparison of '...' from Kimi."\<close>
  "no_result_text sheet_name =
     [0x672A, 0x80FD, 0x4ECE, 75, 105, 109, 105, 0x83B7, 0x53D6, 32, 39] @ sheet_name @
     [39, 32, 0x7684, 0x5DE5, 0x4F5C, 0x6D41, 0x6BD4, 0x8F83, 0x7ED3, 0x679C, 0x3002]"

text \<open>The sheet name \<^verbatim>\<open>f"{sheet_name[:25]}suffix"\<close>.\<close>

definition sheet_title :: "pystr \<Rightarrow> pystr \<Rightarrow> pystr" where
  "sheet_title sheet_name suffix = take 25 sheet_name @ suffix"

text \<open>The frames the program writes besides \<^verbatim>\<open>details_df\<close>.\<close>

definition overview_pair_df :: "pystr list \<Rightarrow> pystr list \<Rightarrow> pystr list \<Rightarrow> dataframe" where
  \<comment> \<open>lines 246 to 250\<close>
  "overview_pair_df common_sheets sheets1 sheets2 =
     \<lparr>df_columns = [COL_STATUS, COL_SHEET_NAMES],
      df_rows = [[LABEL_COMMON, join (of_ascii '', '') common_sheets],
                 [LABEL_ONLY1, join (of_ascii '', '') (sorted_minus sheets1 sheets2)],
                 [LABEL_ONLY2, join (of_ascii '', '') (sorted_minus sheets2 sheets1)]]\<rparr>"

definition same_details_df :: "pystr \<Rightarrow> dataframe" where
  \<comment> \<open>line 263\<close>
  "same_details_df summary_text =
     \<lparr>df_columns = [COL_STATUS, COL_NOTE], df_rows = [[SAME, summary_text]]\<rparr>"

definition same_summary_df :: "pystr \<Rightarrow> dataframe" where
  \<comment> \<open>line 265\<close>
  "same_summary_df summary_text = \<lparr>df_columns = [COL_SUMMARY], df_rows = [[summary_text]]\<rparr>"

definition raw_return_df :: "pystr \<Rightarrow> dataframe" where
  \<comment> \<open>line 313\<close>
  "raw_return_df comparison_result =
     \<lparr>df_columns = [COL_RAW_RETURN], df_rows = [[comparison_result]]\<rparr>"

definition no_result_df :: "pystr \<Rightarrow> dataframe" where
  \<comment> \<open>line 317\<close>
  "no_result_df sheet_name = \<lparr>df_columns = [COL_ERROR], df_rows = [[no_result_text sheet_name]]\<rparr>"

text \<open>
  Statements that may raise, run on the state of the pair: the trace and the sheets
  the pair's writer holds. The first component of the result is the exception that
  left the statement, if any.
\<close>

type_synonym pair_state = "event list \<times> sheet list"

definition then_do ::
  "('s \<Rightarrow> exn option \<times> 's) \<Rightarrow> ('s \<Rightarrow> exn option \<times> 's) \<Rightarrow> 's \<Rightarrow> exn option \<times> 's" where
  "then_do f g s = (case f s of (Some e, s') \<Rightarrow> (Some e, s') | (None, s') \<Rightarrow> g s')"

definition try_except ::
  "('s \<Rightarrow> exn option \<times> 's) \<Rightarrow> (exn \<Rightarrow> 's \<Rightarrow> exn option \<times> 's) \<Rightarrow> 's \<Rightarrow> exn option \<times> 's" where
  "try_except f h s = (case f s of (Some e, s') \<Rightarrow> h e s' | (None, s') \<Rightarrow> (None, s'))"

text \<open>
  What a writer holds: its worksheets in the order they were created, each with its
  title and its cells. The cells are kept as a frame, the first row of the sheet as
  the labels and the rows below it as the rows, which is what \<^verbatim>\<open>to_excel\<close> with
  \<^verbatim>\<open>index=False\<close> puts on a new sheet. Writing a frame under a title the writer
  already has does not create a second sheet: the cells of the frame are written
  over the cells of that sheet, and the cells the frame does not cover stay.
\<close>

definition overlay_row :: "pystr list \<Rightarrow> pystr list \<Rightarrow> pystr list" where
  "overlay_row new old = new @ drop (length new) old"

fun overlay_rows :: "pystr list list \<Rightarrow> pystr list list \<Rightarrow> pystr list list" where
  "overlay_rows [] old = old"
| "overlay_rows (r # rs) [] = r # rs"
| "overlay_rows (r # rs) (r' # rs') = overlay_row r r' # overlay_rows rs rs'"

definition overlay :: "dataframe \<Rightarrow> dataframe \<Rightarrow> dataframe" where
  "overlay new old =
     \<lparr>df_columns = overlay_row (df_columns new) (df_columns old),
      df_rows = overlay_rows (df_rows new) (df_rows old)\<rparr>"

definition put_sheet :: "sheet \<Rightarrow> sheet list \<Rightarrow> sheet list" where
  "put_sheet sh sheets =
     (if fst sh \<in> set (map fst sheets)
      then map (\<lambda>old. if fst old = fst sh then (fst old, overlay (snd sh) (snd old)) else old)
             sheets
      else sheets @ [sh])"

text \<open>\<^verbatim>\<open>df.to_excel(pair_writer, sheet_name=title, index=False)\<close>.\<close>

definition write_sheet :: "'c env \<Rightarrow> pystr \<Rightarrow> sheet \<Rightarrow> pair_state \<Rightarrow> exn option \<times> pair_state" where
  "write_sheet env path sh st =
     (case to_excel env path (snd st) sh of
        Some e \<Rightarrow> (Some e, st)
      | None \<Rightarrow> (None, (fst st, put_sheet sh (snd st))))"

text \<open>Lines 303 to 307, on the sheet written last.\<close>

definition adjust_widths :: "'c env \<Rightarrow> pystr \<Rightarrow> sheet \<Rightarrow> pair_state \<Rightarrow> exn option \<times> pair_state" where
  "adjust_widths env path sh st = (set_column_widths env path sh, st)"

text \<open>
  The body of the loop over the common sheets, lines 256 to 318. The test
  \<^verbatim>\<open>if comparison_result:\<close> is false for \<^verbatim>\<open>None\<close> and for the empty string.
\<close>

definition compare_sheet ::
  "'c env \<Rightarrow> pystr \<Rightarrow> pystr \<Rightarrow> pystr \<Rightarrow> pystr \<Rightarrow> 'c workbook \<Rightarrow> 'c workbook \<Rightarrow> pystr \<Rightarrow>
   pair_state \<Rightarrow> exn option \<times> pair_state" where
  "compare_sheet env api_key path file1_name file2_name xls1 xls2 sheet_name st =
     (case parse_sheet xls1 sheet_name of
        Inl e \<Rightarrow> (Some e, st)
      | Inr df1 \<Rightarrow>
     (case parse_sheet xls2 sheet_name of
        Inl e \<Rightarrow> (Some e, st)
      | Inr df2 \<Rightarrow>
     if df_equals env df1 df2
     then (let summary_text = same_text sheet_name
           in then_do
                (write_sheet env path
                   (sheet_title sheet_name SUFFIX_SUMMARY, same_summary_df summary_text))
                (write_sheet env path
                   (sheet_title sheet_name SUFFIX_DIFF, same_details_df summary_text)) st)
     else
     (case to_json env df1 of
        Inl e \<Rightarrow> (Some e, st)
      | Inr df1_content_str \<Rightarrow>
     (case to_json env df2 of
        Inl e \<Rightarrow> (Some e, st)
      | Inr df2_content_str \<Rightarrow>
     (let (comparison_result, tr) =
            get_comparison_from_kimi (Generation_call env) df1_content_str df2_content_str
              file1_name file2_name sheet_name api_key RETRIES DELAY (fst st);
          st1 = (tr, snd st)
      in case comparison_result of
           None \<Rightarrow>
             write_sheet env path (sheet_title sheet_name SUFFIX_ERROR, no_result_df sheet_name) st1
         | Some reply \<Rightarrow>
             if reply = []
             then write_sheet env path
                    (sheet_title sheet_name SUFFIX_ERROR, no_result_df sheet_name) st1
             else (let sh = (sheet_title sheet_name SUFFIX_DIFF_TABLE,
                             parse_comparison_result sheet_name reply)
                   in try_except
                        (then_do (write_sheet env path sh) (adjust_widths env path sh))
                        (\<lambda>e. write_sheet env path
                                (sheet_title sheet_name SUFFIX_RAW_RETURN, raw_return_df reply))
                        st1))))))"

text \<open>The loop of line 255: the first exception leaves it.\<close>

fun compare_sheets ::
  "'c env \<Rightarrow> pystr \<Rightarrow> pystr \<Rightarrow> pystr \<Rightarrow> pystr \<Rightarrow> 'c workbook \<Rightarrow> 'c workbook \<Rightarrow> pystr list \<Rightarrow>
   pair_state \<Rightarrow> exn option \<times> pair_state" where
  "compare_sheets env api_key path file1_name file2_name xls1 xls2 [] st = (None, st)"
| "compare_sheets env api_key path file1_name file2_name xls1 xls2 (sheet_name # rest) st =
     then_do (compare_sheet env api_key path file1_name file2_name xls1 xls2 sheet_name)
       (compare_sheets env api_key path file1_name file2_name xls1 xls2 rest) st"

section \<open>The orchestrator\<close>

text \<open>One dictionary of \<^verbatim>\<open>overview_data\<close>, with its four keys.\<close>

record overview_entry =
  e_file1 :: pystr
  e_file2 :: pystr
  e_status :: pystr
  e_note :: pystr

text \<open>
  The state of a run: the trace of the client, and the workbooks that were written,
  each with its sheets, in the order their writers were closed.
\<close>

record run_state =
  trace :: "event list"
  artifacts :: "(pystr \<times> sheet list) list"

text \<open>
  Leaving a \<^verbatim>\<open>with pd.ExcelWriter(path) as w\<close> block, normally or by an exception,
  closes the writer, which saves the workbook; an exception of \<^verbatim>\<open>close\<close> replaces the
  one that left the block.
\<close>

definition leave_writer ::
  "'c env \<Rightarrow> pystr \<Rightarrow> sheet list \<Rightarrow> exn option \<Rightarrow> (pystr \<times> sheet list) list \<Rightarrow>
   exn option \<times> (pystr \<times> sheet list) list" where
  "leave_writer env path sheets raised arts =
     (case writer_close env path sheets of
        Some e \<Rightarrow> (Some e, arts)
      | None \<Rightarrow> (raised, arts @ [(path, sheets)]))"

text \<open>Line 241: the path of the workbook of a pair.\<close>

definition pair_output_path :: "pystr \<Rightarrow> pystr \<Rightarrow> pystr \<Rightarrow> pystr" where
  "pair_output_path output_dir file1_name file2_name =
     path_join output_dir
       (of_ascii ''Comparison_'' @ file1_name @ of_ascii ''_vs_'' @ file2_name @
        of_ascii ''.xlsx'')"

text \<open>
  The body of the loop over the pairs, lines 215 to 326: the entry that is appended
  to \<^verbatim>\<open>overview_data\<close>, and the new state.
\<close>

definition compare_pair ::
  "'c env \<Rightarrow> pystr \<Rightarrow> pystr \<Rightarrow> pystr \<times> pystr \<Rightarrow> run_state \<Rightarrow> overview_entry \<times> run_state" where
  "compare_pair env output_dir api_key pair st =
     (let file1_path = fst pair; file2_path = snd pair;
          file1_name = basename file1_path; file2_name = basename file2_path;
          entry = (\<lambda>s n. \<lparr>e_file1 = file1_name, e_file2 = file2_name, e_status = s, e_note = n\<rparr>)
      in case ExcelFile env file1_path of
           Inl e \<Rightarrow> (entry ST_READ_ERROR (str_of e), st)
         | Inr xls1 \<Rightarrow>
        (case ExcelFile env file2_path of
           Inl e \<Rightarrow> (entry ST_READ_ERROR (str_of e), st)
         | Inr xls2 \<Rightarrow>
        (let sheets1 = sheet_names xls1; sheets2 = sheet_names xls2;
             common_sheets = sorted_common sheets1 sheets2
         in if common_sheets = []
            then (entry ST_NO_COMMON_SHEETS NOTE_NO_COMMON_SHEETS, st)
            else
            (let comparison_pair_output_filename =
                   pair_output_path output_dir file1_name file2_name
             in case ExcelWriter env comparison_pair_output_filename of
                  Some e \<Rightarrow> (entry ST_PROCESSING_ERROR (str_of e), st)
                | None \<Rightarrow>
                  (let (raised, (tr, sheets)) =
                         then_do
                           (write_sheet env comparison_pair_output_filename
                              (SHEET_PAIR_OVERVIEW,
                               overview_pair_df common_sheets sheets1 sheets2))
                           (compare_sheets env api_key comparison_pair_output_filename
                              file1_name file2_name xls1 xls2 common_sheets)
                           (trace st, []);
                       (left, arts) =
                         leave_writer env comparison_pair_output_filename sheets raised
                           (artifacts st);
                       st' = \<lparr>trace = tr, artifacts = arts\<rparr>
                   in case left of
                        Some e \<Rightarrow> (entry ST_PROCESSING_ERROR (str_of e), st')
                      | None \<Rightarrow>
                          (entry ST_COMPLETED
                             (saved_note (basename comparison_pair_output_filename)), st'))))))"

text \<open>The loop of line 214, with \<^verbatim>\<open>overview_data\<close> as the accumulator.\<close>

fun compare_pairs ::
  "'c env \<Rightarrow> pystr \<Rightarrow> pystr \<Rightarrow> (pystr \<times> pystr) list \<Rightarrow> overview_entry list \<Rightarrow> run_state \<Rightarrow>
   overview_entry list \<times> run_state" where
  "compare_pairs env output_dir api_key [] overview_data st = (overview_data, st)"
| "compare_pairs env output_dir api_key (pair # rest) overview_data st =
     (let (entry, st') = compare_pair env output_dir api_key pair st
      in compare_pairs env output_dir api_key rest (overview_data @ [entry]) st')"

text \<open>\<^verbatim>\<open>pd.DataFrame(overview_data)\<close>: the keys of the dictionaries are the columns.\<close>

definition overall_overview_df :: "overview_entry list \<Rightarrow> dataframe" where
  "overall_overview_df overview_data =
     (if overview_data = [] then \<lparr>df_columns = [], df_rows = []\<rparr>
      else \<lparr>df_columns = [COL_FILE1, COL_FILE2, COL_STATUS, COL_NOTE],
            df_rows = map (\<lambda>e. [e_file1 e, e_file2 e, e_status e, e_note e]) overview_data\<rparr>)"

text \<open>Line 193: the files that \<^verbatim>\<open>glob\<close> finds, without the lock files of a spreadsheet editor.\<close>

definition excel_files_in :: "'c env \<Rightarrow> pystr \<Rightarrow> pystr list" where
  "excel_files_in env input_dir =
     filter (\<lambda>f. \<not> startswith (basename f) (of_ascii ''~$''))
       (glob env (path_join input_dir (of_ascii ''*.xlsx'')))"

text \<open>Lines 207 and 208: the path of the top-level workbook.\<close>

definition overall_output_path :: "'c env \<Rightarrow> pystr \<Rightarrow> pystr" where
  "overall_output_path env output_dir =
     path_join output_dir
       (of_ascii ''Overall_Comparison_'' @ strftime_now env @ of_ascii ''.xlsx'')"

text \<open>
  \<^verbatim>\<open>perform_comparison\<close>, lines 193 to 340: the returned path (\<open>None\<close> for Python's
  \<^verbatim>\<open>None\<close>) and the state after the run. The entries that reach the overview are those of
  the sheet written to the top-level workbook.
\<close>

definition perform_comparison ::
  "'c env \<Rightarrow> pystr \<Rightarrow> pystr \<Rightarrow> pystr \<Rightarrow> run_state \<Rightarrow> pystr option \<times> run_state" where
  "perform_comparison env input_dir output_dir api_key st =
     (let excel_files = excel_files_in env input_dir
      in if length excel_files < 2 then (None, st)
         else
         (let file_pairs = combinations2 excel_files;
              overall_output_filename = overall_output_path env output_dir
          in case ExcelWriter env overall_output_filename of
               Some e \<Rightarrow> (None, st)
             | None \<Rightarrow>
               (let (overview_data, st1) = compare_pairs env output_dir api_key file_pairs [] st;
                    sh = (SHEET_RUN_OVERVIEW, overall_overview_df overview_data);
                    written = to_excel env overall_output_filename [] sh;
                    (left, arts) =
                      leave_writer env overall_output_filename
                        (if written = None then [sh] else []) written (artifacts st1);
                    st2 = st1\<lparr>artifacts := arts\<rparr>
                in case left of
                     Some e \<Rightarrow> (None, st2)
                   | None \<Rightarrow> (Some overall_output_filename, st2))))"

text \<open>
  The handler of the button, lines 347 to 384: what the page shows. The empty
  string stands for a missing value, which the tests \<^verbatim>\<open>not input_dir\<close>,
  \<^verbatim>\<open>not output_dir\<close> and \<^verbatim>\<open>not api_key\<close> treat alike.
\<close>

datatype page =
    Waiting
  | Input_dir_error
  | Output_dir_error
  | Api_key_error
  | Report pystr
  | Run_error

definition main ::
  "'c env \<Rightarrow> bool \<Rightarrow> pystr \<Rightarrow> pystr \<Rightarrow> pystr \<Rightarrow> run_state \<Rightarrow> page \<times> run_state" where
  "main env process_button input_dir output_dir api_key st =
     (if process_button
      then if input_dir = [] \<or> \<not> isdir env input_dir then (Input_dir_error, st)
           else if output_dir = [] \<or> \<not> isdir env output_dir then (Output_dir_error, st)
           else if api_key = [] \<or> \<not> contains api_key (of_ascii ''sk-'') then (Api_key_error, st)
           else (case perform_comparison env input_dir output_dir api_key st of
                   (Some final_report_path, st') \<Rightarrow> (Report final_report_path, st')
                 | (None, st') \<Rightarrow> (Run_error, st'))
      else (Waiting, st))"

section \<open>Notions used in the statements\<close>

text \<open>
  The value of \<^verbatim>\<open>overview_data\<close> at line 329, when the run has reached the loop over
  the pairs of \<open>files\<close>; and the pair of names an entry records.
\<close>

definition overview_data_of ::
  "'c env \<Rightarrow> pystr \<Rightarrow> pystr \<Rightarrow> pystr list \<Rightarrow> run_state \<Rightarrow> overview_entry list" where
  "overview_data_of env output_dir api_key files st =
     fst (compare_pairs env output_dir api_key (combinations2 files) [] st)"


text \<open>
  The exception, if any, that the step of a sheet raises by itself, when the writer
  takes every sheet: a frame that cannot be read, or two different frames of which
  one cannot be serialised. A failing model and a reply that is no table are not
  among them.
\<close>

definition sheet_raises :: "'c env \<Rightarrow> 'c workbook \<Rightarrow> 'c workbook \<Rightarrow> pystr \<Rightarrow> exn option" where
  "sheet_raises env xls1 xls2 sheet_name =
     (case parse_sheet xls1 sheet_name of
        Inl e \<Rightarrow> Some e
      | Inr df1 \<Rightarrow>
     (case parse_sheet xls2 sheet_name of
        Inl e \<Rightarrow> Some e
      | Inr df2 \<Rightarrow>
          if df_equals env df1 df2 then None
          else (case to_json env df1 of
                  Inl e \<Rightarrow> Some e
                | Inr c1 \<Rightarrow> (case to_json env df2 of Inl e \<Rightarrow> Some e | Inr c2 \<Rightarrow> None))))"

fun first_raised :: "'c env \<Rightarrow> 'c workbook \<Rightarrow> 'c workbook \<Rightarrow> pystr list \<Rightarrow> exn option" where
  "first_raised env xls1 xls2 [] = None"
| "first_raised env xls1 xls2 (sheet_name # rest) =
     (case sheet_raises env xls1 xls2 sheet_name of
        Some e \<Rightarrow> Some e
      | None \<Rightarrow> first_raised env xls1 xls2 rest)"

text \<open>A sheet whose two frames can be read and are equal.\<close>

definition sheet_same :: "'c env \<Rightarrow> 'c workbook \<Rightarrow> 'c workbook \<Rightarrow> pystr \<Rightarrow> bool" where
  "sheet_same env xls1 xls2 sheet_name =
     (case parse_sheet xls1 sheet_name of
        Inl e \<Rightarrow> False
      | Inr df1 \<Rightarrow>
     (case parse_sheet xls2 sheet_name of
        Inl e \<Rightarrow> False
      | Inr df2 \<Rightarrow> df_equals env df1 df2))"

text \<open>The five suffixes of the titles that the step of a sheet writes to.\<close>

definition SUFFIXES :: "pystr list" where
  "SUFFIXES =
     [SUFFIX_SUMMARY, SUFFIX_DIFF, SUFFIX_DIFF_TABLE, SUFFIX_RAW_RETURN, SUFFIX_ERROR]"

text \<open>
  The with-block of a pair, lines 245 to 318, as \<^const>\<open>compare_pair\<close> runs it: from
  an empty writer, the overview of the pair and then the common sheets.
\<close>

definition pair_block ::
  "'c env \<Rightarrow> pystr \<Rightarrow> pystr \<Rightarrow> pystr \<Rightarrow> pystr \<Rightarrow> 'c workbook \<Rightarrow> 'c workbook \<Rightarrow> event list \<Rightarrow>
   exn option \<times> pair_state" where
  "pair_block env api_key path file1_name file2_name xls1 xls2 tr =
     then_do
       (write_sheet env path
          (SHEET_PAIR_OVERVIEW,
           overview_pair_df (sorted_common (sheet_names xls1) (sheet_names xls2))
             (sheet_names xls1) (sheet_names xls2)))
       (compare_sheets env api_key path file1_name file2_name xls1 xls2
          (sorted_common (sheet_names xls1) (sheet_names xls2)))
       (tr, [])"

text \<open>
  The entry of a pair, by what happens to it. A workbook that cannot be read, no
  common sheet and a writer that cannot be opened each fix the entry. When the
  writer of the pair takes every sheet and can be closed, the first sheet that
  raises fixes it, and without such a sheet the pair is completed.
\<close>

definition make_entry :: "pystr \<times> pystr \<Rightarrow> pystr \<Rightarrow> pystr \<Rightarrow> overview_entry" where
  "make_entry p s n =
     \<lparr>e_file1 = basename (fst p), e_file2 = basename (snd p), e_status = s, e_note = n\<rparr>"

definition pair_path :: "pystr \<Rightarrow> pystr \<times> pystr \<Rightarrow> pystr" where
  "pair_path output_dir p = pair_output_path output_dir (basename (fst p)) (basename (snd p))"

definition pair_writes_ok :: "'c env \<Rightarrow> pystr \<Rightarrow> pystr \<times> pystr \<Rightarrow> bool" where
  "pair_writes_ok env output_dir p \<longleftrightarrow>
     (\<forall>shs sh. to_excel env (pair_path output_dir p) shs sh = None) \<and>
     (\<forall>shs. writer_close env (pair_path output_dir p) shs = None)"


text \<open>
  A common sheet of a pair is reached and keeps its titles: both workbooks are read,
  the sheet is among the common ones, no sheet before it raises, no other common
  sheet has its first 25 code points, and the writer of the pair opens, takes every
  sheet and closes.
\<close>

definition sheet_reached ::
  "'c env \<Rightarrow> pystr \<Rightarrow> pystr \<times> pystr \<Rightarrow> 'c workbook \<Rightarrow> 'c workbook \<Rightarrow> pystr list \<Rightarrow> pystr \<Rightarrow>
   pystr list \<Rightarrow> bool" where
  "sheet_reached env output_dir p xls1 xls2 pre s post \<longleftrightarrow>
     ExcelFile env (fst p) = Inr xls1 \<and> ExcelFile env (snd p) = Inr xls2 \<and>
     sorted_common (sheet_names xls1) (sheet_names xls2) = pre @ s # post \<and>
     (\<forall>s' \<in> set pre. sheet_raises env xls1 xls2 s' = None) \<and>
     (\<forall>s' \<in> set pre \<union> set post. take 25 s' \<noteq> take 25 s) \<and>
     ExcelWriter env (pair_path output_dir p) = None \<and>
     pair_writes_ok env output_dir p"


text \<open>
  What the workbook saved last under a path holds in the sheet of a title, if there
  is such a workbook and such a sheet.
\<close>

definition report_sheet :: "run_state \<Rightarrow> pystr \<Rightarrow> pystr \<Rightarrow> dataframe option" where
  "report_sheet st path title =
     (case map_of (rev (artifacts st)) path of
        None \<Rightarrow> None
      | Some sheets \<Rightarrow> map_of sheets title)"


definition entry_names :: "overview_entry \<Rightarrow> pystr \<times> pystr" where
  "entry_names e = (e_file1 e, e_file2 e)"

text \<open>
  A small world to run the program in: a directory with three workbooks and the lock
  file of one of them. The third workbook cannot be read, the first two share one
  sheet with different content, every request to the model times out, and every
  write succeeds.
\<close>

definition demo_wb :: "nat \<Rightarrow> nat workbook" where
  "demo_wb n = \<lparr>sheet_names = [of_ascii ''S''], parse_sheet = (\<lambda>s. Inr n)\<rparr>"

definition demo_env :: "nat env" where
  "demo_env =
     \<lparr>isdir = (\<lambda>p. True),
      glob = (\<lambda>p. [of_ascii ''in/a.xlsx'', of_ascii ''in/~$a.xlsx'', of_ascii ''in/b.xlsx'',
                    of_ascii ''in/c.xlsx'']),
      strftime_now = of_ascii ''20240101_000000'',
      ExcelFile = (\<lambda>p. if p = of_ascii ''in/c.xlsx'' then Inl (Exn (of_ascii ''not a zip file''))
                        else if p = of_ascii ''in/a.xlsx'' then Inr (demo_wb 2)
                        else Inr (demo_wb 3)),
      df_equals = (\<lambda>a b. a = b),
      to_json = (\<lambda>d. Inr (of_ascii ''[]'')),
      Generation_call = (\<lambda>n p k. Inl (Exn (of_ascii ''timeout''))),
      ExcelWriter = (\<lambda>p. None),
      to_excel = (\<lambda>p shs sh. None),
      set_column_widths = (\<lambda>p sh. None),
      writer_close = (\<lambda>p shs. None)\<rparr>"

text \<open>
  A workbook with two sheets, of which the first cannot be parsed; and the request the
  program makes for sheet \<^verbatim>\<open>S\<close> of the first two workbooks of the small world.
\<close>

definition demo_wb2 :: "nat workbook" where
  "demo_wb2 =
     \<lparr>sheet_names = [of_ascii ''A'', of_ascii ''T''],
      parse_sheet = (\<lambda>s. if s = of_ascii ''A'' then Inl (Exn (of_ascii ''bad sheet''))
                          else Inr 2)\<rparr>"

definition demo_prompt :: prompt where
  "demo_prompt =
     \<lparr>p_file1_content = of_ascii ''[]'', p_file2_content = of_ascii ''[]'',
      p_file1_name = of_ascii ''a.xlsx'', p_file2_name = of_ascii ''b.xlsx'',
      p_sheet_name = of_ascii ''S''\<rparr>"

text \<open>A reply with a header, a separator and three lines, one of them too short.\<close>

definition demo_table_reply :: pystr where
  "demo_table_reply =
     of_ascii ''| A | B |'' @ [NEWLINE] @ of_ascii ''|---|---|'' @ [NEWLINE] @
     of_ascii ''| 1 | 2 |'' @ [NEWLINE] @ of_ascii ''| 3 |'' @ [NEWLINE] @ of_ascii ''| 4 | 5 |''"

definition demo_state :: run_state where
  "demo_state = \<lparr>trace = [], artifacts = []\<rparr>"

section \<open>Properties of the string operations\<close>

lemma split_on_not_Nil: "split_on sep s \<noteq> []"
  by (induction s) (auto split: list.splits)

lemma split_on_no_sep: "sep \<notin> set s \<Longrightarrow> split_on sep s = [s]"
  by (induction s) auto

lemma length_split_on: "length (split_on sep s) = Suc (length (filter (\<lambda>c. c = sep) s))"
  by (induction s) (auto split: list.splits simp: split_on_not_Nil)

lemma last_dropWhile: "dropWhile P u \<noteq> [] \<Longrightarrow> last (dropWhile P u) = last u"
  by (induction u) auto

lemma strip_where_idem: "strip_where P (strip_where P s) = strip_where P s"
proof -
  define u where "u = rev (dropWhile P (rev s))"
  define t where "t = dropWhile P u"
  have u: "u = [] \<or> \<not> P (last u)"
  proof (cases "dropWhile P (rev s) = []")
    case True
    then show ?thesis by (simp add: u_def)
  next
    case False
    then have "\<not> P (hd (dropWhile P (rev s)))" by (rule hd_dropWhile)
    then show ?thesis using False by (simp add: u_def last_rev)
  qed
  have "dropWhile P (rev t) = rev t"
  proof (cases "t = []")
    case True
    then show ?thesis by simp
  next
    case False
    then have "last t = last u" "u \<noteq> []"
      unfolding t_def by (auto simp: last_dropWhile)
    with u have "\<not> P (last t)" by simp
    then have "\<not> P (hd (rev t))" using False by (simp add: hd_rev)
    then show ?thesis using False by (cases "rev t") auto
  qed
  then have "strip_where P t = t"
    unfolding strip_where_def t_def by simp
  then show ?thesis unfolding strip_where_def t_def u_def .
qed

lemma strip_idem: "strip (strip s) = strip s"
  by (simp add: strip_def strip_where_idem)

section \<open>Pairs of files\<close>

lemma length_combinations2: "length (combinations2 xs) = length xs choose 2"
  by (induction xs) (auto simp: numeral_2_eq_2)

lemma set_combinations2: "(a, b) \<in> set (combinations2 xs) \<Longrightarrow> a \<in> set xs \<and> b \<in> set xs"
  by (induction xs) auto

lemma combinations2_map:
  "combinations2 (map f xs) = map (\<lambda>(a, b). (f a, f b)) (combinations2 xs)"
  by (induction xs) auto

lemma combinations2_neq: "distinct xs \<Longrightarrow> (a, b) \<in> set (combinations2 xs) \<Longrightarrow> a \<noteq> b"
  by (induction xs) (auto dest: set_combinations2)

lemma distinct_unordered:
  "distinct xs \<Longrightarrow> distinct (map (\<lambda>(a, b). {a, b}) (combinations2 xs))"
  by (induction xs)
    (auto simp: distinct_map inj_on_def doubleton_eq_iff dest: set_combinations2)

section \<open>The loop over the pairs\<close>

lemma compare_pair_names:
  "entry_names (fst (compare_pair env output_dir api_key p st)) =
     (basename (fst p), basename (snd p))"
  by (simp add: compare_pair_def entry_names_def Let_def
      split: sum.splits option.splits prod.splits)

text \<open>
  What holds of the entry of every pair, in whatever state the pair is reached,
  holds of the entries of the overview, pair by pair.
\<close>

lemma compare_pairs_all:
  assumes "\<And>p st. p \<in> set ps \<Longrightarrow> Q p (fst (compare_pair env output_dir api_key p st))"
  shows "\<exists>es. fst (compare_pairs env output_dir api_key ps ov st) = ov @ es \<and> list_all2 Q ps es"
  using assms
proof (induction ps arbitrary: ov st)
  case Nil
  then show ?case by simp
next
  case (Cons p ps)
  obtain e st' where c: "compare_pair env output_dir api_key p st = (e, st')"
    by (cases "compare_pair env output_dir api_key p st")
  have q: "Q p e" using Cons.prems [of p st] c by simp
  obtain es where es:
    "fst (compare_pairs env output_dir api_key ps (ov @ [e]) st') = (ov @ [e]) @ es"
    "list_all2 Q ps es"
    using Cons.IH [of "ov @ [e]" st'] Cons.prems by auto
  show ?case using c es q by (intro exI [of _ "e # es"]) simp
qed

lemma overview_all:
  assumes "\<And>p st. p \<in> set (combinations2 files) \<Longrightarrow>
             Q p (fst (compare_pair env output_dir api_key p st))"
  shows "list_all2 Q (combinations2 files) (overview_data_of env output_dir api_key files st)"
  using compare_pairs_all [of "combinations2 files" Q env output_dir api_key "[]" st, OF assms]
  by (auto simp: overview_data_of_def)

lemma overview_names:
  "map entry_names (overview_data_of env output_dir api_key files st) =
   combinations2 (map basename files)"
proof -
  have "list_all2 (\<lambda>p e. entry_names e = (basename (fst p), basename (snd p)))
          (combinations2 files) (overview_data_of env output_dir api_key files st)"
    by (rule overview_all) (rule compare_pair_names)
  then have "map entry_names (overview_data_of env output_dir api_key files st) =
             map (\<lambda>p. (basename (fst p), basename (snd p))) (combinations2 files)"
    by (induction rule: list_all2_induct) auto
  then show ?thesis by (simp add: combinations2_map case_prod_unfold)
qed

lemma length_overall_overview_df: "length (df_rows (overall_overview_df ov)) = length ov"
  by (simp add: overall_overview_df_def)

text \<open>With two files or more and a top-level writer that works, the run returns the path.\<close>

lemma perform_comparison_runs:
  assumes "2 \<le> length (excel_files_in env input_dir)"
    and "ExcelWriter env (overall_output_path env output_dir) = None"
    and "to_excel env (overall_output_path env output_dir) []
           (SHEET_RUN_OVERVIEW,
            overall_overview_df
              (overview_data_of env output_dir api_key (excel_files_in env input_dir) st)) = None"
    and "writer_close env (overall_output_path env output_dir)
           [(SHEET_RUN_OVERVIEW,
             overall_overview_df
               (overview_data_of env output_dir api_key (excel_files_in env input_dir) st))] = None"
  shows "perform_comparison env input_dir output_dir api_key st =
           (Some (overall_output_path env output_dir),
            \<lparr>trace = trace (snd (compare_pairs env output_dir api_key
                                   (combinations2 (excel_files_in env input_dir)) [] st)),
             artifacts = artifacts (snd (compare_pairs env output_dir api_key
                                   (combinations2 (excel_files_in env input_dir)) [] st)) @
               [(overall_output_path env output_dir,
                 [(SHEET_RUN_OVERVIEW,
                   overall_overview_df
                    (overview_data_of env output_dir api_key (excel_files_in env input_dir) st))])]\<rparr>)"
proof -
  obtain ov st1 where c: "compare_pairs env output_dir api_key
      (combinations2 (excel_files_in env input_dir)) [] st = (ov, st1)"
    by (cases "compare_pairs env output_dir api_key
      (combinations2 (excel_files_in env input_dir)) [] st")
  show ?thesis
    using assms c
    by (simp add: perform_comparison_def Let_def overview_data_of_def leave_writer_def)
qed

section \<open>The small world\<close>

lemma demo_files:
  "excel_files_in demo_env (of_ascii ''in'') =
     [of_ascii ''in/a.xlsx'', of_ascii ''in/b.xlsx'', of_ascii ''in/c.xlsx'']"
  by (simp add: excel_files_in_def demo_env_def of_ascii_def startswith_def basename_def
      SLASH_def path_join_def)

lemma demo_basenames:
  "map basename (excel_files_in demo_env (of_ascii ''in'')) =
     [of_ascii ''a.xlsx'', of_ascii ''b.xlsx'', of_ascii ''c.xlsx'']"
  by (simp add: demo_files) (simp add: basename_def of_ascii_def SLASH_def)

lemma demo_overall_path:
  "overall_output_path demo_env (of_ascii ''out'') =
     of_ascii ''out/Overall_Comparison_20240101_000000.xlsx''"
  by (simp add: overall_output_path_def demo_env_def path_join_def of_ascii_def
      startswith_def SLASH_def)

lemma demo_writes:
  "ExcelWriter demo_env path = None"
  "to_excel demo_env path shs sh = None"
  "set_column_widths demo_env path sh = None"
  "writer_close demo_env path shs = None"
  by (simp_all add: demo_env_def)

section \<open>Every pair of files, once\<close>

text \<open>
  Claim C1. Let \<open>files\<close> be the eligible files in the order \<^verbatim>\<open>glob\<close> lists them, at
  least two of them and with distinct names, and let the top-level workbook be
  writable. Then the run returns the path of that workbook, whose only sheet is the
  overview; the overview has one row for each of the \<open>N choose 2\<close> pairs; its pairs of
  names are the combinations of the names in the order of the enumeration, so the order
  is fixed by the list of files; no unordered pair occurs twice; no row pairs a file
  with itself; and for three files \<open>a, b, c\<close> the rows are \<open>(a, b), (a, c), (b, c)\<close>.
\<close>

theorem overview_lists_each_pair_once:
  fixes env :: "'c env"
  assumes files: "files = excel_files_in env input_dir"
    and ov: "ov = overview_data_of env output_dir api_key files st"
    and sh: "sh = (SHEET_RUN_OVERVIEW, overall_overview_df ov)"
    and n: "2 \<le> length files"
    and d: "distinct (map basename files)"
    and w: "ExcelWriter env (overall_output_path env output_dir) = None"
           "to_excel env (overall_output_path env output_dir) [] sh = None"
           "writer_close env (overall_output_path env output_dir) [sh] = None"
  shows "fst (perform_comparison env input_dir output_dir api_key st) =
           Some (overall_output_path env output_dir) \<and>
         last (artifacts (snd (perform_comparison env input_dir output_dir api_key st))) =
           (overall_output_path env output_dir, [sh]) \<and>
         length (df_rows (snd sh)) = length files choose 2 \<and>
         map (\<lambda>r. (r ! 0, r ! 1)) (df_rows (snd sh)) = combinations2 (map basename files) \<and>
         map entry_names ov = combinations2 (map basename files) \<and>
         distinct (map (\<lambda>e. {e_file1 e, e_file2 e}) ov) \<and>
         (\<forall>e \<in> set ov. e_file1 e \<noteq> e_file2 e) \<and>
         (\<forall>a b c. files = [a, b, c] \<longrightarrow>
            map entry_names ov =
              [(basename a, basename b), (basename a, basename c), (basename b, basename c)])"
proof -
  have names: "map entry_names ov = combinations2 (map basename files)"
    unfolding ov by (rule overview_names)
  have run: "perform_comparison env input_dir output_dir api_key st =
           (Some (overall_output_path env output_dir),
            \<lparr>trace = trace (snd (compare_pairs env output_dir api_key
                                   (combinations2 (excel_files_in env input_dir)) [] st)),
             artifacts = artifacts (snd (compare_pairs env output_dir api_key
                                   (combinations2 (excel_files_in env input_dir)) [] st)) @
               [(overall_output_path env output_dir, [sh])]\<rparr>)"
    using perform_comparison_runs [of env input_dir output_dir api_key st] n w
    unfolding files ov sh by simp
  have len: "length ov = length files choose 2"
    using arg_cong [OF names, of length] by (simp add: length_combinations2)
  have rows: "map (\<lambda>r. (r ! 0, r ! 1)) (df_rows (snd sh)) = map entry_names ov"
    unfolding sh by (simp add: overall_overview_df_def entry_names_def comp_def)
  have "map (\<lambda>e. {e_file1 e, e_file2 e}) ov = map (\<lambda>(a, b). {a, b}) (map entry_names ov)"
    by (simp add: entry_names_def comp_def)
  then have dist: "distinct (map (\<lambda>e. {e_file1 e, e_file2 e}) ov)"
    using distinct_unordered [OF d] names by simp
  have self: "\<forall>e \<in> set ov. e_file1 e \<noteq> e_file2 e"
  proof
    fix e assume "e \<in> set ov"
    then have "entry_names e \<in> set (combinations2 (map basename files))"
      using names by (metis imageI set_map)
    then show "e_file1 e \<noteq> e_file2 e"
      using combinations2_neq [OF d, of "e_file1 e" "e_file2 e"] by (simp add: entry_names_def)
  qed
  have three: "\<forall>a b c. files = [a, b, c] \<longrightarrow>
            map entry_names ov =
              [(basename a, basename b), (basename a, basename c), (basename b, basename c)]"
    using names by simp
  show ?thesis
    using run len rows names dist self three
    by (simp add: sh length_overall_overview_df)
qed

theorem overview_lists_each_pair_once_witness:
  "2 \<le> length (excel_files_in demo_env (of_ascii ''in'')) \<and>
   distinct (map basename (excel_files_in demo_env (of_ascii ''in''))) \<and>
   fst (perform_comparison demo_env (of_ascii ''in'') (of_ascii ''out'') (of_ascii ''sk-1'')
          demo_state) =
     Some (of_ascii ''out/Overall_Comparison_20240101_000000.xlsx'') \<and>
   map entry_names
     (overview_data_of demo_env (of_ascii ''out'') (of_ascii ''sk-1'')
        (excel_files_in demo_env (of_ascii ''in'')) demo_state) =
     [(of_ascii ''a.xlsx'', of_ascii ''b.xlsx''), (of_ascii ''a.xlsx'', of_ascii ''c.xlsx''),
      (of_ascii ''b.xlsx'', of_ascii ''c.xlsx'')]"
proof -
  have h1: "2 \<le> length (excel_files_in demo_env (of_ascii ''in''))"
    by (simp add: demo_files)
  have h2: "distinct (map basename (excel_files_in demo_env (of_ascii ''in'')))"
    unfolding demo_basenames by (simp add: of_ascii_def)
  show ?thesis
    using overview_lists_each_pair_once [OF refl refl refl h1 h2 demo_writes(1,2,4),
        of "of_ascii ''out''" "of_ascii ''sk-1''" demo_state]
    using h1 h2 by (simp add: demo_overall_path demo_basenames)
qed

section \<open>Fewer than two files\<close>

text \<open>
  Claim C8. With fewer than two eligible files the run returns nothing and leaves the
  state as it was: no writer is opened, so no workbook is written, and the model is not
  called. The page then shows the error of a failed run.
\<close>

theorem too_few_files_no_output:
  assumes "length (excel_files_in env input_dir) < 2"
  shows "perform_comparison env input_dir output_dir api_key st = (None, st) \<and>
         artifacts (snd (perform_comparison env input_dir output_dir api_key st)) =
           artifacts st \<and>
         trace (snd (perform_comparison env input_dir output_dir api_key st)) = trace st"
  using assms by (simp add: perform_comparison_def Let_def)

theorem too_few_files_no_output_witness:
  "length (excel_files_in (demo_env\<lparr>glob := (\<lambda>p. [of_ascii ''in/a.xlsx''])\<rparr>)
             (of_ascii ''in'')) = 1 \<and>
   perform_comparison (demo_env\<lparr>glob := (\<lambda>p. [of_ascii ''in/a.xlsx''])\<rparr>)
     (of_ascii ''in'') (of_ascii ''out'') (of_ascii ''sk-1'') demo_state =
     (None, \<lparr>trace = [], artifacts = []\<rparr>)"
proof -
  have h: "length (excel_files_in (demo_env\<lparr>glob := (\<lambda>p. [of_ascii ''in/a.xlsx''])\<rparr>)
             (of_ascii ''in'')) = 1"
    by (simp add: excel_files_in_def demo_env_def of_ascii_def startswith_def basename_def
        SLASH_def)
  then have "length (excel_files_in (demo_env\<lparr>glob := (\<lambda>p. [of_ascii ''in/a.xlsx''])\<rparr>)
             (of_ascii ''in'')) < 2"
    by simp
  from too_few_files_no_output [OF this, of "of_ascii ''out''" "of_ascii ''sk-1''" demo_state] h
  show ?thesis by (simp add: demo_state_def)
qed

section \<open>The retry policy\<close>

lemma upt_0_3: "[0..<3] = [0, 1, 2]"
  by (simp add: upt_rec)

lemma attempt_fails_step:
  "attempt_fails (call (length (filter is_call tr)) p api_key) \<Longrightarrow>
   kimi_attempts call p api_key retries delay (attempt # rest) tr =
     kimi_attempts call p api_key retries delay rest
       (if attempt < retries - 1 then tr @ [Call p api_key, Sleep delay]
        else tr @ [Call p api_key])"
  by (auto simp: Let_def attempt_fails_def split: sum.splits)

lemma attempt_succeeds_step:
  "\<not> attempt_fails (call (length (filter is_call tr)) p api_key) \<Longrightarrow>
   fst (kimi_attempts call p api_key retries delay (attempt # rest) tr) \<noteq> None"
  by (auto simp: Let_def attempt_fails_def split: sum.splits)

text \<open>
  Claim C3. With the defaults of the caller, \<^verbatim>\<open>get_comparison_from_kimi\<close> returns
  \<^verbatim>\<open>None\<close> exactly when three attempts in a row fail, and then it has made exactly those
  three requests, with a sleep of 5 seconds after the first and after the second and
  none after the third.
\<close>

theorem three_attempts_two_sleeps:
  assumes p: "p = \<lparr>p_file1_content = file1_content, p_file2_content = file2_content,
                   p_file1_name = file1_name, p_file2_name = file2_name,
                   p_sheet_name = sheet_name\<rparr>"
    and n: "n = length (filter is_call tr)"
    and r: "r = get_comparison_from_kimi call file1_content file2_content file1_name file2_name
                  sheet_name api_key RETRIES DELAY tr"
  shows "(fst r = None \<longleftrightarrow>
            attempt_fails (call n p api_key) \<and> attempt_fails (call (n + 1) p api_key) \<and>
            attempt_fails (call (n + 2) p api_key)) \<and>
         (fst r = None \<longrightarrow>
            snd r = tr @ [Call p api_key, Sleep 5, Call p api_key, Sleep 5, Call p api_key] \<and>
            length (filter is_call (snd r)) = n + 3 \<and>
            filter is_sleep (drop (length tr) (snd r)) = [Sleep 5, Sleep 5] \<and>
            last (snd r) = Call p api_key)"
proof -
  let ?k = "kimi_attempts call p api_key 3 5"
  have r': "r = ?k [0, 1, 2] tr"
    by (simp add: r get_comparison_from_kimi_def RETRIES_def DELAY_def upt_0_3 p)
  show ?thesis
  proof (cases "attempt_fails (call n p api_key)")
    case False
    then have "fst r \<noteq> None"
      using attempt_succeeds_step [of call tr p api_key 3 5 0 "[1, 2]"]
      by (simp del: kimi_attempts.simps add: r' n)
    then show ?thesis using False by auto
  next
    case f0: True
    let ?t1 = "tr @ [Call p api_key, Sleep 5]"
    have s1: "r = ?k [1, 2] ?t1"
      using attempt_fails_step [of call tr p api_key 3 5 0 "[1, 2]"] f0
      by (simp del: kimi_attempts.simps add: r' n)
    have n1: "length (filter is_call ?t1) = n + 1" by (simp add: n)
    show ?thesis
    proof (cases "attempt_fails (call (n + 1) p api_key)")
      case False
      then have "fst r \<noteq> None"
        using attempt_succeeds_step [of call ?t1 p api_key 3 5 1 "[2]"] n1
        by (simp del: kimi_attempts.simps add: s1)
      then show ?thesis using False by auto
    next
      case f1: True
      let ?t2 = "?t1 @ [Call p api_key, Sleep 5]"
      have s2: "r = ?k [2] ?t2"
        using attempt_fails_step [of call ?t1 p api_key 3 5 1 "[2]"] f1 n1
        by (simp del: kimi_attempts.simps add: s1)
      have n2: "length (filter is_call ?t2) = n + 2" by (simp add: n)
      show ?thesis
      proof (cases "attempt_fails (call (n + 2) p api_key)")
        case False
        then have "fst r \<noteq> None"
          using attempt_succeeds_step [of call ?t2 p api_key 3 5 2 "[]"] n2
          by (simp del: kimi_attempts.simps add: s2)
        then show ?thesis using False by auto
      next
        case f2: True
        have "r = (None, ?t2 @ [Call p api_key])"
          using attempt_fails_step [of call ?t2 p api_key 3 5 2 "[]"] f2 n2
          by (simp add: s2)
        then show ?thesis using f0 f1 f2 by (simp add: n)
      qed
    qed
  qed
qed

theorem three_attempts_two_sleeps_witness:
  "attempt_fails
     (Generation_call demo_env 0
        \<lparr>p_file1_content = of_ascii ''[1]'', p_file2_content = of_ascii ''[2]'',
         p_file1_name = of_ascii ''a.xlsx'', p_file2_name = of_ascii ''b.xlsx'',
         p_sheet_name = of_ascii ''S''\<rparr> (of_ascii ''sk-1'')) \<and>
   get_comparison_from_kimi (Generation_call demo_env) (of_ascii ''[1]'') (of_ascii ''[2]'')
     (of_ascii ''a.xlsx'') (of_ascii ''b.xlsx'') (of_ascii ''S'') (of_ascii ''sk-1'')
     RETRIES DELAY [] =
   (None,
    [Call \<lparr>p_file1_content = of_ascii ''[1]'', p_file2_content = of_ascii ''[2]'',
           p_file1_name = of_ascii ''a.xlsx'', p_file2_name = of_ascii ''b.xlsx'',
           p_sheet_name = of_ascii ''S''\<rparr> (of_ascii ''sk-1''),
     Sleep 5,
     Call \<lparr>p_file1_content = of_ascii ''[1]'', p_file2_content = of_ascii ''[2]'',
           p_file1_name = of_ascii ''a.xlsx'', p_file2_name = of_ascii ''b.xlsx'',
           p_sheet_name = of_ascii ''S''\<rparr> (of_ascii ''sk-1''),
     Sleep 5,
     Call \<lparr>p_file1_content = of_ascii ''[1]'', p_file2_content = of_ascii ''[2]'',
           p_file1_name = of_ascii ''a.xlsx'', p_file2_name = of_ascii ''b.xlsx'',
           p_sheet_name = of_ascii ''S''\<rparr> (of_ascii ''sk-1'')])"
proof -
  have f: "attempt_fails (Generation_call demo_env i q k)" for i q k
    by (simp add: attempt_fails_def demo_env_def)
  show ?thesis
    using three_attempts_two_sleeps [OF refl refl refl, of "Generation_call demo_env"
        "of_ascii ''[1]''" "of_ascii ''[2]''" "of_ascii ''a.xlsx''" "of_ascii ''b.xlsx''"
        "of_ascii ''S''" "of_ascii ''sk-1''" "[]"] f
    by (simp add: prod_eq_iff)
qed

section \<open>The parser of the reply\<close>

lemma collect_data_rows_filter:
  "collect_data_rows header ls acc =
     acc @ filter (\<lambda>parts. length parts = length header) (map split_cells ls)"
  by (induction ls arbitrary: acc) (auto simp: Let_def)

lemma zip_replicate_same:
  "map (\<lambda>(h, x). f h x) (zip hs (replicate (length hs) c)) = map (\<lambda>h. f h c) hs"
  by (induction hs) auto

lemma header_only_frame_eq:
  "header_only_frame header =
     \<lparr>df_columns = (if COL_DIFF_NOTE \<in> set header then header else header @ [COL_DIFF_NOTE]),
      df_rows = [map (\<lambda>h. if h = COL_DIFF_NOTE then NO_DIFF_NOTE else NO_DIFF) header @
                 (if COL_DIFF_NOTE \<in> set header then [] else [NO_DIFF_NOTE])]\<rparr>"
proof -
  have "map (\<lambda>(h, x). if h = COL_DIFF_NOTE then NO_DIFF_NOTE else x)
          (zip header (replicate (length header) NO_DIFF)) =
        map (\<lambda>h. if h = COL_DIFF_NOTE then NO_DIFF_NOTE else NO_DIFF) header"
    by (rule zip_replicate_same)
  moreover have "COL_DIFF_NOTE \<notin> set header \<Longrightarrow>
     map (\<lambda>h. if h = COL_DIFF_NOTE then NO_DIFF_NOTE else NO_DIFF) header =
     replicate (length header) NO_DIFF"
    by (induction header) auto
  ultimately show ?thesis
    by (simp add: header_only_frame_def DataFrame_def df_empty_def loc0_set_def set_column_def)
qed

lemma parse_table_branch:
  assumes "lines = split_on NEWLINE (strip comparison_result)"
    and "1 < length lines" "PIPE \<in> set (lines ! 0)" "contains (lines ! 1) DASHES"
  shows "parse_comparison_result sheet_name comparison_result =
           DataFrame (filter (\<lambda>parts. length parts = length (split_cells (lines ! 0)))
                        (map split_cells (drop 2 lines)))
             (split_cells (lines ! 0))"
  using assms
  by (simp add: parse_comparison_result_def Let_def strip_idem collect_data_rows_filter)

lemma parse_header_only_branch:
  assumes "lines = split_on NEWLINE (strip comparison_result)"
    and "\<not> (1 < length lines \<and> PIPE \<in> set (lines ! 0) \<and> contains (lines ! 1) DASHES)"
    and "PIPE \<in> set (lines ! 0)"
  shows "parse_comparison_result sheet_name comparison_result =
           header_only_frame (split_cells (lines ! 0))"
  using assms
  by (auto simp add: parse_comparison_result_def Let_def strip_idem)









lemma map_of_put_sheet:
  "map_of (put_sheet sh sheets) t =
     (if t = fst sh
      then Some (case map_of sheets t of None \<Rightarrow> snd sh | Some old \<Rightarrow> overlay (snd sh) old)
      else map_of sheets t)"
proof (cases "fst sh \<in> set (map fst sheets)")
  case False
  then have "map_of sheets (fst sh) = None"
    by (simp add: map_of_eq_None_iff)
  then show ?thesis
    using False by (cases sh) (auto simp: put_sheet_def map_add_def split: option.splits)
next
  case True
  have "map_of (map (\<lambda>old. if fst old = fst sh then (fst old, overlay (snd sh) (snd old)) else old)
                  sheets) t =
        (if t = fst sh then map_option (overlay (snd sh)) (map_of sheets t) else map_of sheets t)"
    by (induction sheets) auto
  moreover obtain old where "map_of sheets (fst sh) = Some old"
    using True by (metis map_of_eq_None_iff not_Some_eq set_map)
  ultimately show ?thesis
    using True by (auto simp: put_sheet_def)
qed




lemma title_suffix_neq: "X \<noteq> Y \<Longrightarrow> sheet_title s X \<noteq> sheet_title s Y"
  by (simp add: sheet_title_def)






text \<open>
  Claim C5. When the trimmed reply has a pipe in its first line and three dashes in its
  second, the columns are the cells of the first line, and the rows are the cell lists
  of the lines from the third on whose number of cells is that of the header, in their
  order and unchanged: a line is kept if and only if its count matches.
\<close>

theorem data_rows_kept_iff_cell_count_matches:
  assumes lines: "lines = split_on NEWLINE (strip reply)"
    and b: "1 < length lines" "PIPE \<in> set (lines ! 0)" "contains (lines ! 1) DASHES"
    and header: "header = split_cells (lines ! 0)"
    and df: "df = parse_comparison_result sheet_name reply"
  shows "df_columns df = header \<and>
         df_rows df =
           filter (\<lambda>parts. length parts = length header) (map split_cells (drop 2 lines)) \<and>
         (\<forall>row \<in> set (df_rows df). length row = length header) \<and>
         (\<forall>i. 2 \<le> i \<and> i < length lines \<longrightarrow>
            (split_cells (lines ! i) \<in> set (df_rows df) \<longleftrightarrow>
             length (split_cells (lines ! i)) = length header))"
proof -
  have e: "df = DataFrame
             (filter (\<lambda>parts. length parts = length header) (map split_cells (drop 2 lines)))
             header"
    unfolding df header by (rule parse_table_branch [OF lines b])
  have rows: "df_rows df =
     filter (\<lambda>parts. length parts = length header) (map split_cells (drop 2 lines))"
    by (simp add: e DataFrame_def)
  have "split_cells (lines ! i) \<in> set (map split_cells (drop 2 lines))"
    if "2 \<le> i" "i < length lines" for i
  proof -
    have "Suc (Suc (i - 2)) = i" using that by arith
    then have "lines ! i = drop 2 lines ! (i - 2)" "i - 2 < length (drop 2 lines)"
      using that by auto
    then have "lines ! i \<in> set (drop 2 lines)" by (metis nth_mem)
    then show ?thesis by simp
  qed
  then show ?thesis
    by (auto simp: rows e DataFrame_def)
qed

theorem data_rows_kept_iff_cell_count_matches_witness:
  "1 < length (split_on NEWLINE (strip demo_table_reply)) \<and>
   PIPE \<in> set (split_on NEWLINE (strip demo_table_reply) ! 0) \<and>
   contains (split_on NEWLINE (strip demo_table_reply) ! 1) DASHES \<and>
   parse_comparison_result (of_ascii ''S'') demo_table_reply =
     \<lparr>df_columns = [of_ascii ''A'', of_ascii ''B''],
      df_rows = [[of_ascii ''1'', of_ascii ''2''], [of_ascii ''4'', of_ascii ''5'']]\<rparr>"
proof -
  have s: "strip demo_table_reply = demo_table_reply"
    by (simp add: demo_table_reply_def strip_def strip_where_def is_space_def of_ascii_def
        NEWLINE_def)
  have l: "split_on NEWLINE (strip demo_table_reply) =
             [of_ascii ''| A | B |'', of_ascii ''|---|---|'', of_ascii ''| 1 | 2 |'',
              of_ascii ''| 3 |'', of_ascii ''| 4 | 5 |'']"
    unfolding s by (simp add: demo_table_reply_def of_ascii_def NEWLINE_def)
  have c: "split_cells (of_ascii ''| A | B |'') = [of_ascii ''A'', of_ascii ''B'']"
    "split_cells (of_ascii ''| 1 | 2 |'') = [of_ascii ''1'', of_ascii ''2'']"
    "split_cells (of_ascii ''| 3 |'') = [of_ascii ''3'']"
    "split_cells (of_ascii ''| 4 | 5 |'') = [of_ascii ''4'', of_ascii ''5'']"
    by (simp_all add: split_cells_def strip_def strip_chars_def strip_where_def is_space_def
        of_ascii_def PIPE_def)
  have h: "1 < length (split_on NEWLINE (strip demo_table_reply))"
    "PIPE \<in> set (split_on NEWLINE (strip demo_table_reply) ! 0)"
    "contains (split_on NEWLINE (strip demo_table_reply) ! 1) DASHES"
    unfolding l by (simp_all add: of_ascii_def PIPE_def DASHES_def startswith_def)
  have "df_columns (parse_comparison_result (of_ascii ''S'') demo_table_reply) =
          [of_ascii ''A'', of_ascii ''B'']"
       "df_rows (parse_comparison_result (of_ascii ''S'') demo_table_reply) =
          [[of_ascii ''1'', of_ascii ''2''], [of_ascii ''4'', of_ascii ''5'']]"
    using data_rows_kept_iff_cell_count_matches [OF refl h refl refl, of "of_ascii ''S''"]
    by (simp_all add: l c)
  then show ?thesis using h by simp
qed

text \<open>
  Claim C6. For a reply whose trimmed text is one line with a pipe, the frame is built
  from the table of no rows with the cells of that line as header, and what is written
  has exactly one row: the text for "no difference" in every cell, and the note that
  no significant difference was found in the column of the difference note.
\<close>

theorem single_header_line_gets_placeholder_row:
  assumes "NEWLINE \<notin> set (strip reply)" "PIPE \<in> set (strip reply)"
    and header: "header = split_cells (strip reply)"
    and df: "df = parse_comparison_result sheet_name reply"
  shows "df = header_only_frame header \<and>
         df_rows (DataFrame [] header) = [] \<and>
         take (length header) (df_columns df) = header \<and>
         length (df_rows df) = 1 \<and>
         df_rows df =
           [map (\<lambda>h. if h = COL_DIFF_NOTE then NO_DIFF_NOTE else NO_DIFF) header @
            (if COL_DIFF_NOTE \<in> set header then [] else [NO_DIFF_NOTE])] \<and>
         NO_DIFF_NOTE \<in> set (df_rows df ! 0)"
proof -
  have l: "split_on NEWLINE (strip reply) = [strip reply]"
    using assms(1) by (rule split_on_no_sep)
  have e: "df = header_only_frame header"
    unfolding df header
    using parse_header_only_branch [OF refl, of reply sheet_name] assms(2) by (simp add: l)
  have "header \<noteq> []"
    by (simp add: header split_cells_def split_on_not_Nil)
  then have "NO_DIFF_NOTE \<in> set (df_rows df ! 0)"
    unfolding e header_only_frame_eq by (cases header) auto
  then show ?thesis
    by (simp add: e header_only_frame_eq DataFrame_def)
qed

theorem single_header_line_gets_placeholder_row_witness:
  "NEWLINE \<notin> set (strip (of_ascii ''| A | B |'')) \<and> PIPE \<in> set (strip (of_ascii ''| A | B |'')) \<and>
   parse_comparison_result (of_ascii ''S'') (of_ascii ''| A | B |'') =
     \<lparr>df_columns = [of_ascii ''A'', of_ascii ''B'', COL_DIFF_NOTE],
      df_rows = [[NO_DIFF, NO_DIFF, NO_DIFF_NOTE]]\<rparr>"
proof -
  have s: "strip (of_ascii ''| A | B |'') = of_ascii ''| A | B |''"
    by (simp add: strip_def strip_where_def is_space_def of_ascii_def)
  have c: "split_cells (of_ascii ''| A | B |'') = [of_ascii ''A'', of_ascii ''B'']"
    by (simp add: split_cells_def strip_def strip_chars_def strip_where_def is_space_def
        of_ascii_def PIPE_def)
  have h: "NEWLINE \<notin> set (strip (of_ascii ''| A | B |''))"
    "PIPE \<in> set (strip (of_ascii ''| A | B |''))"
    unfolding s by (simp_all add: of_ascii_def NEWLINE_def PIPE_def)
  have n: "COL_DIFF_NOTE \<notin> set [of_ascii ''A'', of_ascii ''B'']"
    by (simp add: of_ascii_def COL_DIFF_NOTE_def)
  show ?thesis
    using single_header_line_gets_placeholder_row [OF h refl refl, of "of_ascii ''S''"] h n
    by (auto simp add: s c header_only_frame_eq)
qed

text \<open>
  Claim C10. In the branch for a header without a table, the column of the difference
  note is always there: a header without it gets it as one more column on the right,
  a header with it keeps its columns, and every cell of that column holds the note.
\<close>

theorem header_only_branch_sets_diff_note_column:
  assumes lines: "lines = split_on NEWLINE (strip reply)"
    and b: "\<not> (1 < length lines \<and> PIPE \<in> set (lines ! 0) \<and> contains (lines ! 1) DASHES)"
       "PIPE \<in> set (lines ! 0)"
    and header: "header = split_cells (lines ! 0)"
    and df: "df = parse_comparison_result sheet_name reply"
  shows "COL_DIFF_NOTE \<in> set (df_columns df) \<and>
         (COL_DIFF_NOTE \<notin> set header \<longrightarrow>
            df_columns df = header @ [COL_DIFF_NOTE] \<and>
            length (df_columns df) = length header + 1) \<and>
         (COL_DIFF_NOTE \<in> set header \<longrightarrow> df_columns df = header) \<and>
         (\<forall>row \<in> set (df_rows df). length row = length (df_columns df) \<and>
            (\<forall>i < length row. df_columns df ! i = COL_DIFF_NOTE \<longrightarrow> row ! i = NO_DIFF_NOTE))"
proof -
  have e: "df = header_only_frame header"
    unfolding df header by (rule parse_header_only_branch [OF lines b])
  show ?thesis
    unfolding e header_only_frame_eq
    by (auto simp: nth_append)
qed

theorem header_only_branch_sets_diff_note_column_witness:
  "df_columns (parse_comparison_result (of_ascii ''S'') (of_ascii ''a|b'')) =
     [of_ascii ''a'', of_ascii ''b'', COL_DIFF_NOTE] \<and>
   df_columns (parse_comparison_result (of_ascii ''S'') (of_ascii ''a|'' @ COL_DIFF_NOTE)) =
     [of_ascii ''a'', COL_DIFF_NOTE]"
proof -
  have s: "strip (of_ascii ''a|b'') = of_ascii ''a|b''"
    "strip (of_ascii ''a|'' @ COL_DIFF_NOTE) = of_ascii ''a|'' @ COL_DIFF_NOTE"
    by (simp_all add: strip_def strip_where_def is_space_def of_ascii_def COL_DIFF_NOTE_def)
  have l: "split_on NEWLINE (strip (of_ascii ''a|b'')) = [of_ascii ''a|b'']"
    "split_on NEWLINE (strip (of_ascii ''a|'' @ COL_DIFF_NOTE)) =
       [of_ascii ''a|'' @ COL_DIFF_NOTE]"
    unfolding s by (simp_all add: of_ascii_def NEWLINE_def COL_DIFF_NOTE_def)
  have c: "split_cells (of_ascii ''a|b'') = [of_ascii ''a'', of_ascii ''b'']"
    "split_cells (of_ascii ''a|'' @ COL_DIFF_NOTE) = [of_ascii ''a'', COL_DIFF_NOTE]"
    by (simp_all add: split_cells_def strip_def strip_chars_def strip_where_def is_space_def
        of_ascii_def PIPE_def COL_DIFF_NOTE_def)
  have n: "COL_DIFF_NOTE \<notin> set [of_ascii ''a'', of_ascii ''b'']"
    "COL_DIFF_NOTE \<in> set [of_ascii ''a'', COL_DIFF_NOTE]"
    by (simp_all add: of_ascii_def COL_DIFF_NOTE_def)
  have h1: "\<not> (1 < length (split_on NEWLINE (strip (of_ascii ''a|b''))) \<and>
              PIPE \<in> set (split_on NEWLINE (strip (of_ascii ''a|b'')) ! 0) \<and>
              contains (split_on NEWLINE (strip (of_ascii ''a|b'')) ! 1) DASHES)"
    "PIPE \<in> set (split_on NEWLINE (strip (of_ascii ''a|b'')) ! 0)"
    unfolding l by (simp_all add: of_ascii_def PIPE_def)
  have h2: "\<not> (1 < length (split_on NEWLINE (strip (of_ascii ''a|'' @ COL_DIFF_NOTE))) \<and>
              PIPE \<in> set (split_on NEWLINE (strip (of_ascii ''a|'' @ COL_DIFF_NOTE)) ! 0) \<and>
              contains (split_on NEWLINE (strip (of_ascii ''a|'' @ COL_DIFF_NOTE)) ! 1) DASHES)"
    "PIPE \<in> set (split_on NEWLINE (strip (of_ascii ''a|'' @ COL_DIFF_NOTE)) ! 0)"
    unfolding l by (simp_all add: of_ascii_def PIPE_def)
  show ?thesis
    using header_only_branch_sets_diff_note_column [OF refl h1 refl refl, of "of_ascii ''S''"]
      header_only_branch_sets_diff_note_column [OF refl h2 refl refl, of "of_ascii ''S''"]
      n
    by (simp add: l c)
qed

section \<open>Titles\<close>

lemma suffix_last:
  assumes "X \<in> set SUFFIXES" "Y \<in> set SUFFIXES" "last X = last Y"
  shows "X = Y"
  using assms
  by (auto simp: SUFFIXES_def SUFFIX_SUMMARY_def SUFFIX_DIFF_def SUFFIX_DIFF_TABLE_def
      SUFFIX_RAW_RETURN_def SUFFIX_ERROR_def)

lemma suffix_not_Nil: "X \<in> set SUFFIXES \<Longrightarrow> X \<noteq> []"
  by (auto simp: SUFFIXES_def SUFFIX_SUMMARY_def SUFFIX_DIFF_def SUFFIX_DIFF_TABLE_def
      SUFFIX_RAW_RETURN_def SUFFIX_ERROR_def)

lemma title_eq:
  assumes "X \<in> set SUFFIXES" "Y \<in> set SUFFIXES" "sheet_title s X = sheet_title s' Y"
  shows "X = Y \<and> take 25 s = take 25 s'"
proof -
  have "last (sheet_title s X) = last X" "last (sheet_title s' Y) = last Y"
    using assms(1,2) by (simp_all add: sheet_title_def suffix_not_Nil)
  then have "X = Y"
    using assms by (intro suffix_last) simp_all
  then show ?thesis
    using assms(3) by (simp add: sheet_title_def)
qed

lemma title_not_overview: "X \<in> set SUFFIXES \<Longrightarrow> sheet_title s X \<noteq> SHEET_PAIR_OVERVIEW"
proof
  assume x: "X \<in> set SUFFIXES" and "sheet_title s X = SHEET_PAIR_OVERVIEW"
  then have "last (sheet_title s X) = last SHEET_PAIR_OVERVIEW" by simp
  moreover have "last (sheet_title s X) = last X"
    using x by (simp add: sheet_title_def suffix_not_Nil)
  ultimately show False
    using x
    by (auto simp: SUFFIXES_def SUFFIX_SUMMARY_def SUFFIX_DIFF_def SUFFIX_DIFF_TABLE_def
        SUFFIX_RAW_RETURN_def SUFFIX_ERROR_def SHEET_PAIR_OVERVIEW_def)
qed

section \<open>The step of a sheet\<close>

lemma same_sheet_step:
  assumes "parse_sheet xls1 sheet_name = Inr df1" "parse_sheet xls2 sheet_name = Inr df2"
    and "df_equals env df1 df2"
  shows "compare_sheet env api_key path file1_name file2_name xls1 xls2 sheet_name st =
           then_do
             (write_sheet env path
                (sheet_title sheet_name SUFFIX_SUMMARY, same_summary_df (same_text sheet_name)))
             (write_sheet env path
                (sheet_title sheet_name SUFFIX_DIFF, same_details_df (same_text sheet_name))) st"
  using assms by (simp add: compare_sheet_def Let_def)


text \<open>When the writer takes every sheet, a step raises what its sheet raises by itself.\<close>

lemma compare_sheet_raises:
  assumes "\<And>shs sh. to_excel env path shs sh = None"
  shows "fst (compare_sheet env api_key path file1_name file2_name xls1 xls2 sheet_name st) =
           sheet_raises env xls1 xls2 sheet_name"
  using assms
  by (simp add: compare_sheet_def sheet_raises_def Let_def then_do_def try_except_def
      write_sheet_def adjust_widths_def split: sum.splits option.splits prod.splits)

text \<open>A step writes under the titles of its own sheet only.\<close>

lemma compare_sheet_other_titles:
  assumes "\<And>X. X \<in> set SUFFIXES \<Longrightarrow> t \<noteq> sheet_title sheet_name X"
  shows "map_of (snd (snd (compare_sheet env api_key path file1_name file2_name xls1 xls2
                             sheet_name st))) t = map_of (snd st) t"
proof -
  have n: "t \<noteq> sheet_title sheet_name SUFFIX_SUMMARY" "t \<noteq> sheet_title sheet_name SUFFIX_DIFF"
    "t \<noteq> sheet_title sheet_name SUFFIX_DIFF_TABLE" "t \<noteq> sheet_title sheet_name SUFFIX_RAW_RETURN"
    "t \<noteq> sheet_title sheet_name SUFFIX_ERROR"
    using assms by (simp_all add: SUFFIXES_def)
  have w: "map_of (snd (snd (write_sheet env path (sheet_title sheet_name X, f) st'))) t =
           map_of (snd st') t" if "t \<noteq> sheet_title sheet_name X" for X f st'
    using that by (simp add: write_sheet_def map_of_put_sheet split: option.splits)
  show ?thesis
    by (simp add: compare_sheet_def Let_def then_do_def try_except_def adjust_widths_def
        write_sheet_def map_of_put_sheet n split: sum.splits option.splits prod.splits)
qed

text \<open>The trace after a step: only a sheet with two different frames asks the model.\<close>

lemma compare_sheet_trace:
  "fst (snd (compare_sheet env api_key path file1_name file2_name xls1 xls2 sheet_name st)) =
     (case parse_sheet xls1 sheet_name of
        Inl e \<Rightarrow> fst st
      | Inr df1 \<Rightarrow>
     (case parse_sheet xls2 sheet_name of
        Inl e \<Rightarrow> fst st
      | Inr df2 \<Rightarrow>
          if df_equals env df1 df2 then fst st
          else (case to_json env df1 of
                  Inl e \<Rightarrow> fst st
                | Inr c1 \<Rightarrow>
               (case to_json env df2 of
                  Inl e \<Rightarrow> fst st
                | Inr c2 \<Rightarrow>
                    snd (get_comparison_from_kimi (Generation_call env) c1 c2 file1_name
                           file2_name sheet_name api_key RETRIES DELAY (fst st))))))"
  by (simp add: compare_sheet_def Let_def then_do_def try_except_def adjust_widths_def
      write_sheet_def split: sum.splits option.splits prod.splits)

lemma kimi_attempts_events:
  "\<exists>evs. snd (kimi_attempts call p api_key retries delay atts tr) = tr @ evs \<and>
         (\<forall>q k. Call q k \<in> set evs \<longrightarrow> q = p)"
proof (induction atts arbitrary: tr)
  case Nil
  then show ?case by simp
next
  case (Cons a atts)
  let ?tr2 = "if a < retries - 1 then tr @ [Call p api_key, Sleep delay]
              else tr @ [Call p api_key]"
  obtain evs where evs: "snd (kimi_attempts call p api_key retries delay atts ?tr2) = ?tr2 @ evs"
    "\<forall>q k. Call q k \<in> set evs \<longrightarrow> q = p"
    using Cons.IH [of ?tr2] by blast
  have rec: "\<exists>evs'. snd (kimi_attempts call p api_key retries delay atts ?tr2) = tr @ evs' \<and>
               (\<forall>q k. Call q k \<in> set evs' \<longrightarrow> q = p)"
    using evs
    by (intro exI [of _ "(if a < retries - 1 then [Call p api_key, Sleep delay]
                          else [Call p api_key]) @ evs"]) auto
  have one: "\<exists>evs'. tr @ [Call p api_key] = tr @ evs' \<and> (\<forall>q k. Call q k \<in> set evs' \<longrightarrow> q = p)"
    by (intro exI [of _ "[Call p api_key]"]) simp
  show ?case
    using rec one by (auto simp: Let_def split: sum.splits)
qed

lemma compare_sheet_events:
  "\<exists>evs. fst (snd (compare_sheet env api_key path file1_name file2_name xls1 xls2
                      sheet_name st)) = fst st @ evs \<and>
         (\<forall>q k. Call q k \<in> set evs \<longrightarrow> \<not> sheet_same env xls1 xls2 (p_sheet_name q))"
proof -
  have k: "\<exists>evs. snd (get_comparison_from_kimi (Generation_call env) c1 c2 file1_name
                        file2_name sheet_name api_key RETRIES DELAY (fst st)) = fst st @ evs \<and>
                 (\<forall>q k. Call q k \<in> set evs \<longrightarrow> p_sheet_name q = sheet_name)" for c1 c2
  proof -
    let ?p = "\<lparr>p_file1_content = c1, p_file2_content = c2, p_file1_name = file1_name,
               p_file2_name = file2_name, p_sheet_name = sheet_name\<rparr>"
    obtain evs where e:
      "snd (kimi_attempts (Generation_call env) ?p api_key RETRIES DELAY [0..<RETRIES] (fst st)) =
         fst st @ evs"
      "\<forall>q k. Call q k \<in> set evs \<longrightarrow> q = ?p"
      using kimi_attempts_events
        [of "Generation_call env" ?p api_key RETRIES DELAY "[0..<RETRIES]" "fst st"]
      by blast
    have "p_sheet_name q = sheet_name" if "Call q k \<in> set evs" for q k
    proof -
      have "q = ?p" using e(2) that by blast
      then show ?thesis by simp
    qed
    then show ?thesis
      using e(1) by (intro exI [of _ evs]) (simp add: get_comparison_from_kimi_def)
  qed
  have z: "\<exists>evs. fst st = fst st @ evs \<and>
                 (\<forall>q k. Call q k \<in> set evs \<longrightarrow> p_sheet_name q = sheet_name)"
    by (intro exI [of _ "[]"]) simp
  have g: "\<exists>evs. fst (snd (compare_sheet env api_key path file1_name file2_name xls1 xls2
                              sheet_name st)) = fst st @ evs \<and>
                 (\<forall>q k. Call q k \<in> set evs \<longrightarrow> p_sheet_name q = sheet_name)"
    unfolding compare_sheet_trace using k z by (simp split: sum.splits)
  show ?thesis
  proof (cases "sheet_same env xls1 xls2 sheet_name")
    case True
    then have "fst (snd (compare_sheet env api_key path file1_name file2_name xls1 xls2
                           sheet_name st)) = fst st"
      by (simp add: compare_sheet_trace sheet_same_def split: sum.splits)
    then show ?thesis
      by (intro exI [of _ "[]"]) simp
  next
    case False
    obtain evs where e:
      "fst (snd (compare_sheet env api_key path file1_name file2_name xls1 xls2
                   sheet_name st)) = fst st @ evs"
      "\<forall>q k. Call q k \<in> set evs \<longrightarrow> p_sheet_name q = sheet_name"
      using g by blast
    show ?thesis
      using e False by (intro exI [of _ evs]) auto
  qed
qed

section \<open>The loop over the sheets\<close>

lemma compare_sheets_append:
  "compare_sheets env api_key path file1_name file2_name xls1 xls2 (xs @ ys) st =
     then_do (compare_sheets env api_key path file1_name file2_name xls1 xls2 xs)
       (compare_sheets env api_key path file1_name file2_name xls1 xls2 ys) st"
  by (induction xs arbitrary: st) (auto simp: then_do_def split: prod.splits option.splits)

lemma compare_sheets_raised:
  assumes "\<And>shs sh. to_excel env path shs sh = None"
  shows "fst (compare_sheets env api_key path file1_name file2_name xls1 xls2 ss st) =
           first_raised env xls1 xls2 ss"
proof (induction ss arbitrary: st)
  case Nil
  then show ?case by simp
next
  case (Cons s ss)
  obtain r st1 where c:
    "compare_sheet env api_key path file1_name file2_name xls1 xls2 s st = (r, st1)"
    by (cases "compare_sheet env api_key path file1_name file2_name xls1 xls2 s st")
  have "r = sheet_raises env xls1 xls2 s"
    using compare_sheet_raises [OF assms, of api_key file1_name file2_name xls1 xls2 s st] c
    by simp
  then show ?case
    using c Cons.IH [of st1] by (simp add: then_do_def split: option.splits)
qed

lemma compare_sheets_other_titles:
  assumes "\<And>s X. s \<in> set ss \<Longrightarrow> X \<in> set SUFFIXES \<Longrightarrow> t \<noteq> sheet_title s X"
  shows "map_of (snd (snd (compare_sheets env api_key path file1_name file2_name xls1 xls2
                             ss st))) t = map_of (snd st) t"
  using assms
proof (induction ss arbitrary: st)
  case Nil
  then show ?case by simp
next
  case (Cons s ss)
  obtain r st1 where c:
    "compare_sheet env api_key path file1_name file2_name xls1 xls2 s st = (r, st1)"
    by (cases "compare_sheet env api_key path file1_name file2_name xls1 xls2 s st")
  have 1: "map_of (snd st1) t = map_of (snd st) t"
    using compare_sheet_other_titles
      [of t s env api_key path file1_name file2_name xls1 xls2 st] Cons.prems c
    by simp
  have 2: "map_of (snd (snd (compare_sheets env api_key path file1_name file2_name xls1 xls2
                               ss st1))) t = map_of (snd st1) t"
    by (rule Cons.IH) (simp add: Cons.prems)
  show ?case
    using c 1 2 by (simp add: then_do_def split: option.splits)
qed

lemma compare_sheets_events:
  "\<exists>evs. fst (snd (compare_sheets env api_key path file1_name file2_name xls1 xls2 ss st)) =
           fst st @ evs \<and>
         (\<forall>q k. Call q k \<in> set evs \<longrightarrow> \<not> sheet_same env xls1 xls2 (p_sheet_name q))"
proof (induction ss arbitrary: st)
  case Nil
  then show ?case by simp
next
  case (Cons s ss)
  obtain r st1 where c:
    "compare_sheet env api_key path file1_name file2_name xls1 xls2 s st = (r, st1)"
    by (cases "compare_sheet env api_key path file1_name file2_name xls1 xls2 s st")
  obtain evs1 where 1: "fst st1 = fst st @ evs1"
    "\<forall>q k. Call q k \<in> set evs1 \<longrightarrow> \<not> sheet_same env xls1 xls2 (p_sheet_name q)"
    using compare_sheet_events [of env api_key path file1_name file2_name xls1 xls2 s st] c
    by auto
  obtain evs2 where 2:
    "fst (snd (compare_sheets env api_key path file1_name file2_name xls1 xls2 ss st1)) =
       fst st1 @ evs2"
    "\<forall>q k. Call q k \<in> set evs2 \<longrightarrow> \<not> sheet_same env xls1 xls2 (p_sheet_name q)"
    using Cons.IH [of st1] by blast
  show ?case
  proof (cases r)
    case None
    then show ?thesis
      using c 1 2 by (intro exI [of _ "evs1 @ evs2"]) (auto simp: then_do_def)
  next
    case (Some e)
    then show ?thesis
      using c 1 by (intro exI [of _ evs1]) (auto simp: then_do_def)
  qed
qed



section \<open>The block of a pair\<close>

text \<open>The body of the loop over the pairs, by what happens.\<close>

lemma compare_pair_cases:
  "compare_pair env output_dir api_key p st =
     (case ExcelFile env (fst p) of
        Inl x \<Rightarrow> (make_entry p ST_READ_ERROR (str_of x), st)
      | Inr xls1 \<Rightarrow>
     (case ExcelFile env (snd p) of
        Inl x \<Rightarrow> (make_entry p ST_READ_ERROR (str_of x), st)
      | Inr xls2 \<Rightarrow>
          if sorted_common (sheet_names xls1) (sheet_names xls2) = []
          then (make_entry p ST_NO_COMMON_SHEETS NOTE_NO_COMMON_SHEETS, st)
          else (case ExcelWriter env (pair_path output_dir p) of
                  Some x \<Rightarrow> (make_entry p ST_PROCESSING_ERROR (str_of x), st)
                | None \<Rightarrow>
                    (case pair_block env api_key (pair_path output_dir p) (basename (fst p))
                            (basename (snd p)) xls1 xls2 (trace st) of
                       (raised, (tr, sheets)) \<Rightarrow>
                         (case writer_close env (pair_path output_dir p) sheets of
                            Some x \<Rightarrow>
                              (make_entry p ST_PROCESSING_ERROR (str_of x),
                               \<lparr>trace = tr, artifacts = artifacts st\<rparr>)
                          | None \<Rightarrow>
                              (case raised of
                                 Some x \<Rightarrow> make_entry p ST_PROCESSING_ERROR (str_of x)
                               | None \<Rightarrow>
                                   make_entry p ST_COMPLETED
                                     (saved_note (basename (pair_path output_dir p))),
                               \<lparr>trace = tr,
                                artifacts =
                                  artifacts st @ [(pair_path output_dir p, sheets)]\<rparr>))))))"
  by (simp add: compare_pair_def make_entry_def pair_path_def pair_block_def leave_writer_def
      Let_def split: sum.splits option.splits prod.splits)


lemma pair_block_events:
  "\<exists>evs. fst (snd (pair_block env api_key path file1_name file2_name xls1 xls2 tr)) = tr @ evs \<and>
         (\<forall>q k. Call q k \<in> set evs \<longrightarrow> \<not> sheet_same env xls1 xls2 (p_sheet_name q))"
proof -
  let ?ov = "(SHEET_PAIR_OVERVIEW,
              overview_pair_df (sorted_common (sheet_names xls1) (sheet_names xls2))
                (sheet_names xls1) (sheet_names xls2))"
  show ?thesis
  proof (cases "to_excel env path [] ?ov")
    case (Some e)
    then show ?thesis
      by (intro exI [of _ "[]"]) (simp add: pair_block_def then_do_def write_sheet_def)
  next
    case None
    then show ?thesis
      using compare_sheets_events [of env api_key path file1_name file2_name xls1 xls2
          "sorted_common (sheet_names xls1) (sheet_names xls2)" "(tr, put_sheet ?ov [])"]
      by (simp add: pair_block_def then_do_def write_sheet_def)
  qed
qed

text \<open>
  What the writer holds at the end of the block under a title of a sheet that is
  reached and keeps its titles: what the step of that sheet left there, on titles
  that were new to the writer.
\<close>

lemma pair_block_sheet:
  assumes w: "\<And>shs sh. to_excel env path shs sh = None"
    and c: "sorted_common (sheet_names xls1) (sheet_names xls2) = pre @ s # post"
    and pre: "\<forall>s' \<in> set pre. sheet_raises env xls1 xls2 s' = None"
    and d: "\<forall>s' \<in> set pre \<union> set post. take 25 s' \<noteq> take 25 s"
  shows "\<exists>tr1 shs1.
           (\<forall>X \<in> set SUFFIXES. map_of shs1 (sheet_title s X) = None) \<and>
           (\<forall>X \<in> set SUFFIXES.
              map_of (snd (snd (pair_block env api_key path file1_name file2_name xls1 xls2 tr)))
                (sheet_title s X) =
              map_of (snd (snd (compare_sheet env api_key path file1_name file2_name xls1 xls2
                                  s (tr1, shs1)))) (sheet_title s X))"
proof -
  let ?ov = "(SHEET_PAIR_OVERVIEW,
              overview_pair_df (pre @ s # post) (sheet_names xls1) (sheet_names xls2))"
  let ?CS = "compare_sheets env api_key path file1_name file2_name xls1 xls2"
  let ?C = "compare_sheet env api_key path file1_name file2_name xls1 xls2 s"
  have other: "t \<noteq> sheet_title s' Y"
    if "t = sheet_title s X" "X \<in> set SUFFIXES" "Y \<in> set SUFFIXES" "s' \<in> set pre \<union> set post"
    for t X Y s'
    using that d title_eq [of Y X s' s] by auto
  have fr: "first_raised env xls1 xls2 pre = None"
    using pre by (induction pre) auto
  obtain tr1 shs1 where p1: "?CS pre (tr, [?ov]) = (None, (tr1, shs1))"
    using compare_sheets_raised [OF w, of api_key file1_name file2_name xls1 xls2 pre
        "(tr, [?ov])"] fr
    by (metis prod.collapse)
  have fresh: "map_of shs1 (sheet_title s X) = None" if "X \<in> set SUFFIXES" for X
  proof -
    have "map_of (snd (snd (?CS pre (tr, [?ov])))) (sheet_title s X) =
          map_of (snd (tr, [?ov])) (sheet_title s X)"
      by (rule compare_sheets_other_titles) (use other that in auto)
    then show ?thesis
      using p1 title_not_overview [OF that, of s] by simp
  qed
  obtain r st2 where p2: "?C (tr1, shs1) = (r, st2)"
    by (cases "?C (tr1, shs1)")
  have blk: "pair_block env api_key path file1_name file2_name xls1 xls2 tr =
               (case r of Some e \<Rightarrow> (Some e, st2) | None \<Rightarrow> ?CS post st2)"
    using p1 p2
    by (simp add: pair_block_def c then_do_def write_sheet_def w put_sheet_def
        compare_sheets_append split: option.splits)
  have keep: "map_of (snd (snd (pair_block env api_key path file1_name file2_name xls1 xls2 tr)))
                (sheet_title s X) = map_of (snd st2) (sheet_title s X)"
    if "X \<in> set SUFFIXES" for X
  proof (cases r)
    case (Some e)
    then show ?thesis by (simp add: blk)
  next
    case None
    have "map_of (snd (snd (?CS post st2))) (sheet_title s X) = map_of (snd st2) (sheet_title s X)"
      by (rule compare_sheets_other_titles) (use other that in auto)
    then show ?thesis using None by (simp add: blk)
  qed
  show ?thesis
    using fresh keep p2 by (intro exI [of _ tr1] exI [of _ shs1]) simp
qed

lemma report_sheet_last:
  "report_sheet \<lparr>trace = tr, artifacts = arts @ [(path, sheets)]\<rparr> path t = map_of sheets t"
  by (simp add: report_sheet_def)

lemma compare_pair_report:
  assumes "sheet_reached env output_dir p xls1 xls2 pre s post"
  shows "\<exists>tr1 shs1.
           (\<forall>X \<in> set SUFFIXES. map_of shs1 (sheet_title s X) = None) \<and>
           (\<forall>X \<in> set SUFFIXES.
              report_sheet (snd (compare_pair env output_dir api_key p st))
                (pair_path output_dir p) (sheet_title s X) =
              map_of (snd (snd (compare_sheet env api_key (pair_path output_dir p)
                                  (basename (fst p)) (basename (snd p)) xls1 xls2 s
                                  (tr1, shs1)))) (sheet_title s X))"
proof -
  have r: "ExcelFile env (fst p) = Inr xls1" "ExcelFile env (snd p) = Inr xls2"
    "sorted_common (sheet_names xls1) (sheet_names xls2) = pre @ s # post"
    "\<forall>s' \<in> set pre. sheet_raises env xls1 xls2 s' = None"
    "\<forall>s' \<in> set pre \<union> set post. take 25 s' \<noteq> take 25 s"
    "ExcelWriter env (pair_path output_dir p) = None"
    and w: "\<And>shs sh. to_excel env (pair_path output_dir p) shs sh = None"
    and cl: "\<And>shs. writer_close env (pair_path output_dir p) shs = None"
    using assms by (auto simp: sheet_reached_def pair_writes_ok_def)
  let ?B = "pair_block env api_key (pair_path output_dir p) (basename (fst p))
              (basename (snd p)) xls1 xls2 (trace st)"
  obtain raised tr sheets where b: "?B = (raised, (tr, sheets))"
    by (cases ?B) auto
  have "report_sheet (snd (compare_pair env output_dir api_key p st)) (pair_path output_dir p) t =
          map_of (snd (snd ?B)) t" for t
    by (simp add: compare_pair_cases r b cl report_sheet_last)
  then show ?thesis
    using pair_block_sheet [OF w r(3) r(4) r(5), of api_key "basename (fst p)"
        "basename (snd p)" "trace st"]
    by simp
qed

text \<open>The steps of the three kinds of sheet, on titles that are new to the writer.\<close>

lemma step_same_sheets:
  assumes "sheet_same env xls1 xls2 s"
    and w: "\<And>shs sh. to_excel env path shs sh = None"
    and fresh: "\<forall>X \<in> set SUFFIXES. map_of shs1 (sheet_title s X) = None"
  shows "map_of (snd (snd (compare_sheet env api_key path file1_name file2_name xls1 xls2 s
                             (tr1, shs1)))) (sheet_title s SUFFIX_SUMMARY) =
           Some (same_summary_df (same_text s))"
    and "map_of (snd (snd (compare_sheet env api_key path file1_name file2_name xls1 xls2 s
                             (tr1, shs1)))) (sheet_title s SUFFIX_DIFF) =
           Some (same_details_df (same_text s))"
proof -
  obtain df1 df2 where f: "parse_sheet xls1 s = Inr df1" "parse_sheet xls2 s = Inr df2"
    "df_equals env df1 df2"
    using assms(1) by (auto simp: sheet_same_def split: sum.splits)
  have n: "sheet_title s SUFFIX_SUMMARY \<noteq> sheet_title s SUFFIX_DIFF"
    by (simp add: sheet_title_def SUFFIX_SUMMARY_def SUFFIX_DIFF_def)
  have fr: "map_of shs1 (sheet_title s SUFFIX_SUMMARY) = None"
    "map_of shs1 (sheet_title s SUFFIX_DIFF) = None"
    using fresh by (simp_all add: SUFFIXES_def)
  show "map_of (snd (snd (compare_sheet env api_key path file1_name file2_name xls1 xls2 s
                             (tr1, shs1)))) (sheet_title s SUFFIX_SUMMARY) =
           Some (same_summary_df (same_text s))"
    using n fr
    by (simp add: same_sheet_step [OF f] then_do_def write_sheet_def w map_of_put_sheet)
  show "map_of (snd (snd (compare_sheet env api_key path file1_name file2_name xls1 xls2 s
                             (tr1, shs1)))) (sheet_title s SUFFIX_DIFF) =
           Some (same_details_df (same_text s))"
    using n fr
    by (simp add: same_sheet_step [OF f] then_do_def write_sheet_def w map_of_put_sheet)
qed



section \<open>The entry and the trace of a pair\<close>





lemma compare_pair_events:
  assumes "ExcelFile env (fst p) = Inr xls1" "ExcelFile env (snd p) = Inr xls2"
  shows "\<exists>evs. trace (snd (compare_pair env output_dir api_key p st)) = trace st @ evs \<and>
           (\<forall>q k. Call q k \<in> set evs \<longrightarrow> \<not> sheet_same env xls1 xls2 (p_sheet_name q))"
proof -
  let ?B = "pair_block env api_key (pair_path output_dir p) (basename (fst p))
              (basename (snd p)) xls1 xls2 (trace st)"
  have z: "\<exists>evs. trace st = trace st @ evs \<and>
             (\<forall>q k. Call q k \<in> set evs \<longrightarrow> \<not> sheet_same env xls1 xls2 (p_sheet_name q))"
    by (intro exI [of _ "[]"]) simp
  have "trace (snd (compare_pair env output_dir api_key p st)) = trace st \<or>
        trace (snd (compare_pair env output_dir api_key p st)) = fst (snd ?B)"
    by (simp add: compare_pair_cases assms split: option.splits prod.splits)
  then show ?thesis
    using z pair_block_events [of env api_key "pair_path output_dir p" "basename (fst p)"
        "basename (snd p)" xls1 xls2 "trace st"]
    by auto
qed

section \<open>Sheets with equal frames\<close>

text \<open>
  Claim C2, as amended. Let both workbooks of a pair be read. No request that the pair
  sends to the model is for a sheet whose two frames are equal for
  \<^verbatim>\<open>DataFrame.equals\<close>, whatever else happens to the pair. And when such a sheet is
  reached, that is, no common sheet before it raises, and the writer of the pair
  opens, takes every sheet and closes, and no other common sheet has the same first
  25 code points, then the workbook saved for the pair holds, under the two titles
  of the sheet, the summary and the details with the status "identical". A sheet
  after one that raises is not reached, and its outcome is not recorded.
\<close>

theorem equal_sheet_is_not_sent_and_is_recorded_when_reached:
  fixes env :: "'c env"
  assumes "ExcelFile env (fst p) = Inr xls1" "ExcelFile env (snd p) = Inr xls2"
    and st': "st' = snd (compare_pair env output_dir api_key p st)"
  shows "take (length (trace st)) (trace st') = trace st \<and>
         (\<forall>q k. Call q k \<in> set (drop (length (trace st)) (trace st')) \<longrightarrow>
                \<not> sheet_same env xls1 xls2 (p_sheet_name q)) \<and>
         (\<forall>pre s post.
            sheet_reached env output_dir p xls1 xls2 pre s post \<and> sheet_same env xls1 xls2 s \<longrightarrow>
            report_sheet st' (pair_path output_dir p) (sheet_title s SUFFIX_SUMMARY) =
              Some (same_summary_df (same_text s)) \<and>
            report_sheet st' (pair_path output_dir p) (sheet_title s SUFFIX_DIFF) =
              Some (same_details_df (same_text s)) \<and>
            df_rows (same_details_df (same_text s)) = [[SAME, same_text s]])"
proof -
  obtain evs where e: "trace st' = trace st @ evs"
    "\<forall>q k. Call q k \<in> set evs \<longrightarrow> \<not> sheet_same env xls1 xls2 (p_sheet_name q)"
    unfolding st' using compare_pair_events [OF assms(1,2)] by blast
  have 1: "take (length (trace st)) (trace st') = trace st"
    "\<forall>q k. Call q k \<in> set (drop (length (trace st)) (trace st')) \<longrightarrow>
           \<not> sheet_same env xls1 xls2 (p_sheet_name q)"
    using e by simp_all
  have 2: "report_sheet st' (pair_path output_dir p) (sheet_title s SUFFIX_SUMMARY) =
              Some (same_summary_df (same_text s)) \<and>
           report_sheet st' (pair_path output_dir p) (sheet_title s SUFFIX_DIFF) =
              Some (same_details_df (same_text s)) \<and>
           df_rows (same_details_df (same_text s)) = [[SAME, same_text s]]"
    if r: "sheet_reached env output_dir p xls1 xls2 pre s post"
      and same: "sheet_same env xls1 xls2 s" for pre s post
  proof -
    have w: "\<And>shs sh. to_excel env (pair_path output_dir p) shs sh = None"
      using r by (auto simp: sheet_reached_def pair_writes_ok_def)
    obtain tr1 shs1 where
      fresh: "\<forall>X \<in> set SUFFIXES. map_of shs1 (sheet_title s X) = None"
      and rep: "\<forall>X \<in> set SUFFIXES.
              report_sheet (snd (compare_pair env output_dir api_key p st))
                (pair_path output_dir p) (sheet_title s X) =
              map_of (snd (snd (compare_sheet env api_key (pair_path output_dir p)
                                  (basename (fst p)) (basename (snd p)) xls1 xls2 s
                                  (tr1, shs1)))) (sheet_title s X)"
      using compare_pair_report [OF r, of api_key st] by blast
    have m: "SUFFIX_SUMMARY \<in> set SUFFIXES" "SUFFIX_DIFF \<in> set SUFFIXES"
      by (simp_all add: SUFFIXES_def)
    show ?thesis
      using rep m step_same_sheets [OF same w fresh, of api_key "basename (fst p)"
          "basename (snd p)" tr1]
      by (simp add: st' same_details_df_def)
  qed
  show ?thesis
    using 1 2 by blast
qed

theorem equal_sheet_is_not_sent_and_is_recorded_when_reached_witness:
  "sheet_reached (demo_env\<lparr>ExcelFile := (\<lambda>p. Inr (demo_wb 2))\<rparr>) (of_ascii ''out'')
     (of_ascii ''in/a.xlsx'', of_ascii ''in/b.xlsx'') (demo_wb 2) (demo_wb 2) []
     (of_ascii ''S'') [] \<and>
   sheet_same (demo_env\<lparr>ExcelFile := (\<lambda>p. Inr (demo_wb 2))\<rparr>) (demo_wb 2) (demo_wb 2)
     (of_ascii ''S'') \<and>
   report_sheet
     (snd (compare_pair (demo_env\<lparr>ExcelFile := (\<lambda>p. Inr (demo_wb 2))\<rparr>) (of_ascii ''out'')
             (of_ascii ''sk-1'') (of_ascii ''in/a.xlsx'', of_ascii ''in/b.xlsx'') demo_state))
     (pair_path (of_ascii ''out'') (of_ascii ''in/a.xlsx'', of_ascii ''in/b.xlsx''))
     (sheet_title (of_ascii ''S'') SUFFIX_DIFF) =
     Some (same_details_df (same_text (of_ascii ''S'')))"
proof -
  let ?env = "demo_env\<lparr>ExcelFile := (\<lambda>p. Inr (demo_wb 2))\<rparr>"
  let ?p = "(of_ascii ''in/a.xlsx'', of_ascii ''in/b.xlsx'')"
  have r: "ExcelFile ?env (fst ?p) = Inr (demo_wb 2)" "ExcelFile ?env (snd ?p) = Inr (demo_wb 2)"
    by simp_all
  have c: "sorted_common (sheet_names (demo_wb 2)) (sheet_names (demo_wb 2)) = [of_ascii ''S'']"
    by (simp add: sorted_common_def demo_wb_def)
  have reached: "sheet_reached ?env (of_ascii ''out'') ?p (demo_wb 2) (demo_wb 2) []
                   (of_ascii ''S'') []"
    by (simp add: sheet_reached_def pair_writes_ok_def c) (simp add: demo_env_def)
  have same: "sheet_same ?env (demo_wb 2) (demo_wb 2) (of_ascii ''S'')"
    by (simp add: sheet_same_def demo_wb_def demo_env_def)
  note t = equal_sheet_is_not_sent_and_is_recorded_when_reached [OF r refl,
      of demo_state "of_ascii ''out''" "of_ascii ''sk-1''"]
  show ?thesis
    using t [THEN conjunct2, THEN conjunct2, THEN spec, THEN spec, THEN spec, THEN mp,
        OF conjI [OF reached same]] reached same
    by simp
qed

theorem equal_sheet_after_raising_sheet_counterexample:
  "sorted_common (sheet_names demo_wb2) (sheet_names demo_wb2) =
     [of_ascii ''A'', of_ascii ''T''] \<and>
   sheet_same (demo_env\<lparr>ExcelFile := (\<lambda>p. Inr demo_wb2)\<rparr>) demo_wb2 demo_wb2 (of_ascii ''T'') \<and>
   fst (compare_pair (demo_env\<lparr>ExcelFile := (\<lambda>p. Inr demo_wb2)\<rparr>) (of_ascii ''out'')
          (of_ascii ''sk-1'') (of_ascii ''in/a.xlsx'', of_ascii ''in/b.xlsx'') demo_state) =
     make_entry (of_ascii ''in/a.xlsx'', of_ascii ''in/b.xlsx'') ST_PROCESSING_ERROR
       (of_ascii ''bad sheet'') \<and>
   artifacts
     (snd (compare_pair (demo_env\<lparr>ExcelFile := (\<lambda>p. Inr demo_wb2)\<rparr>) (of_ascii ''out'')
             (of_ascii ''sk-1'') (of_ascii ''in/a.xlsx'', of_ascii ''in/b.xlsx'') demo_state)) =
     [(pair_path (of_ascii ''out'') (of_ascii ''in/a.xlsx'', of_ascii ''in/b.xlsx''),
       [(SHEET_PAIR_OVERVIEW,
         overview_pair_df [of_ascii ''A'', of_ascii ''T''] (sheet_names demo_wb2)
           (sheet_names demo_wb2))])] \<and>
   report_sheet
     (snd (compare_pair (demo_env\<lparr>ExcelFile := (\<lambda>p. Inr demo_wb2)\<rparr>) (of_ascii ''out'')
             (of_ascii ''sk-1'') (of_ascii ''in/a.xlsx'', of_ascii ''in/b.xlsx'') demo_state))
     (pair_path (of_ascii ''out'') (of_ascii ''in/a.xlsx'', of_ascii ''in/b.xlsx''))
     (sheet_title (of_ascii ''T'') SUFFIX_DIFF) = None"
proof -
  let ?env = "demo_env\<lparr>ExcelFile := (\<lambda>p. Inr demo_wb2)\<rparr>"
  let ?p = "(of_ascii ''in/a.xlsx'', of_ascii ''in/b.xlsx'')"
  let ?path = "pair_path (of_ascii ''out'') ?p"
  let ?ov = "(SHEET_PAIR_OVERVIEW,
              overview_pair_df [of_ascii ''A'', of_ascii ''T''] (sheet_names demo_wb2)
                (sheet_names demo_wb2))"
  have c: "sorted_common (sheet_names demo_wb2) (sheet_names demo_wb2) =
             [of_ascii ''A'', of_ascii ''T'']"
    by (simp add: sorted_common_def demo_wb2_def of_ascii_def)
  have same: "sheet_same ?env demo_wb2 demo_wb2 (of_ascii ''T'')"
    by (simp add: sheet_same_def demo_wb2_def demo_env_def of_ascii_def)
  have a: "parse_sheet demo_wb2 (of_ascii ''A'') = Inl (Exn (of_ascii ''bad sheet''))"
    by (simp add: demo_wb2_def)
  have w: "to_excel ?env path shs sh = None" "writer_close ?env path shs = None"
    "ExcelWriter ?env path = None" "to_excel demo_env path shs sh = None"
    "writer_close demo_env path shs = None" "ExcelWriter demo_env path = None"
    for path shs sh
    by (simp_all add: demo_env_def)
  have b: "pair_block ?env (of_ascii ''sk-1'') ?path (basename (of_ascii ''in/a.xlsx''))
             (basename (of_ascii ''in/b.xlsx'')) demo_wb2 demo_wb2 [] =
           (Some (Exn (of_ascii ''bad sheet'')), ([], [?ov]))"
    by (simp add: pair_block_def c then_do_def write_sheet_def w put_sheet_def
        compare_sheet_def a)
  have res: "compare_pair ?env (of_ascii ''out'') (of_ascii ''sk-1'') ?p demo_state =
               (make_entry ?p ST_PROCESSING_ERROR (of_ascii ''bad sheet''),
                \<lparr>trace = [], artifacts = [(?path, [?ov])]\<rparr>)"
    by (simp add: compare_pair_cases c w demo_state_def b)
  have n: "sheet_title (of_ascii ''T'') SUFFIX_DIFF \<noteq> SHEET_PAIR_OVERVIEW"
    by (rule title_not_overview) (simp add: SUFFIXES_def)
  show ?thesis
    using c same n by (simp add: res report_sheet_def)
qed

section \<open>Errors of a pair\<close>



text \<open>
  Claim C9, as amended. With both directories valid, the key is rejected, before any
  work and with the state unchanged, exactly when it is empty or does not contain
  \<^verbatim>\<open>sk-\<close> anywhere; otherwise the comparison runs. The code tests for a substring, not
  for a prefix.
\<close>

theorem api_key_substring_check:
  assumes "input_dir \<noteq> []" "isdir env input_dir" "output_dir \<noteq> []" "isdir env output_dir"
  shows "(api_key = [] \<or> \<not> contains api_key (of_ascii ''sk-'') \<longrightarrow>
            main env True input_dir output_dir api_key st = (Api_key_error, st)) \<and>
         (api_key \<noteq> [] \<and> contains api_key (of_ascii ''sk-'') \<longrightarrow>
            main env True input_dir output_dir api_key st =
              (case perform_comparison env input_dir output_dir api_key st of
                 (Some final_report_path, st') \<Rightarrow> (Report final_report_path, st')
               | (None, st') \<Rightarrow> (Run_error, st'))) \<and>
         (fst (main env True input_dir output_dir api_key st) = Api_key_error \<longleftrightarrow>
            api_key = [] \<or> \<not> contains api_key (of_ascii ''sk-''))"
  using assms
  by (auto simp: main_def split: prod.splits option.splits)

lemma demo_run:
  "fst (perform_comparison demo_env (of_ascii ''in'') (of_ascii ''out'') api_key demo_state) =
     Some (of_ascii ''out/Overall_Comparison_20240101_000000.xlsx'')"
  using perform_comparison_runs [of demo_env "of_ascii ''in''" "of_ascii ''out''" api_key
      demo_state]
  by (simp add: demo_files demo_writes demo_overall_path)

theorem api_key_substring_check_witness:
  "of_ascii ''in'' \<noteq> [] \<and> isdir demo_env (of_ascii ''in'') \<and>
   of_ascii ''out'' \<noteq> [] \<and> isdir demo_env (of_ascii ''out'') \<and>
   main demo_env True (of_ascii ''in'') (of_ascii ''out'') (of_ascii ''key'') demo_state =
     (Api_key_error, demo_state) \<and>
   main demo_env True (of_ascii ''in'') (of_ascii ''out'') [] demo_state =
     (Api_key_error, demo_state) \<and>
   fst (main demo_env True (of_ascii ''in'') (of_ascii ''out'') (of_ascii ''sk-1'') demo_state)
     \<noteq> Api_key_error"
proof -
  have h: "of_ascii ''in'' \<noteq> []" "isdir demo_env (of_ascii ''in'')"
    "of_ascii ''out'' \<noteq> []" "isdir demo_env (of_ascii ''out'')"
    by (simp_all add: of_ascii_def demo_env_def)
  have k: "\<not> contains (of_ascii ''key'') (of_ascii ''sk-'')"
    "contains (of_ascii ''sk-1'') (of_ascii ''sk-'')" "of_ascii ''sk-1'' \<noteq> []"
    by (simp_all add: of_ascii_def startswith_def)
  show ?thesis
    using api_key_substring_check [OF h, of "of_ascii ''key''" demo_state]
      api_key_substring_check [OF h, of "[]" demo_state]
      api_key_substring_check [OF h, of "of_ascii ''sk-1''" demo_state, THEN conjunct2, THEN conjunct2] h k
    by simp
qed

theorem key_without_prefix_counterexample:
  "of_ascii ''xsk-1'' \<noteq> [] \<and>
   \<not> startswith (of_ascii ''xsk-1'') (of_ascii ''sk-'') \<and>
   fst (main demo_env True (of_ascii ''in'') (of_ascii ''out'') (of_ascii ''xsk-1'') demo_state) =
     Report (of_ascii ''out/Overall_Comparison_20240101_000000.xlsx'')"
proof -
  have k: "contains (of_ascii ''xsk-1'') (of_ascii ''sk-'')" "of_ascii ''xsk-1'' \<noteq> []"
    "\<not> startswith (of_ascii ''xsk-1'') (of_ascii ''sk-'')"
    by (simp_all add: of_ascii_def startswith_def)
  have d: "isdir demo_env p" for p by (simp add: demo_env_def)
  have "of_ascii ''in'' \<noteq> []" "of_ascii ''out'' \<noteq> []" by (simp_all add: of_ascii_def)
  then show ?thesis
    using k d demo_run [of "of_ascii ''xsk-1''"]
    by (auto simp: main_def split: prod.splits option.splits)
qed

end
